theory Spec2Isabelle
  imports Complex_Main "HOL-Library.AList"
begin

section \<open>Status values (absl::Status)\<close>

text \<open>
  The canonical status codes of \<^verbatim>\<open>absl::StatusCode\<close>, in the order of their
  numeric values 0..16.
\<close>

datatype StatusCode =
    kOk | kCancelled | kUnknown | kInvalidArgument | kDeadlineExceeded | kNotFound
  | kAlreadyExists | kPermissionDenied | kResourceExhausted | kFailedPrecondition
  | kAborted | kOutOfRange | kUnimplemented | kInternal | kUnavailable | kDataLoss
  | kUnauthenticated

fun code_number :: "StatusCode \<Rightarrow> int" where
  "code_number kOk = 0"
| "code_number kCancelled = 1"
| "code_number kUnknown = 2"
| "code_number kInvalidArgument = 3"
| "code_number kDeadlineExceeded = 4"
| "code_number kNotFound = 5"
| "code_number kAlreadyExists = 6"
| "code_number kPermissionDenied = 7"
| "code_number kResourceExhausted = 8"
| "code_number kFailedPrecondition = 9"
| "code_number kAborted = 10"
| "code_number kOutOfRange = 11"
| "code_number kUnimplemented = 12"
| "code_number kInternal = 13"
| "code_number kUnavailable = 14"
| "code_number kDataLoss = 15"
| "code_number kUnauthenticated = 16"

datatype Status = Status (code: StatusCode) (message: string)

definition OkStatus :: Status where
  "OkStatus = Status kOk []"

definition InternalError :: "string \<Rightarrow> Status" where
  "InternalError m = Status kInternal m"

definition InvalidArgumentError :: "string \<Rightarrow> Status" where
  "InvalidArgumentError m = Status kInvalidArgument m"

definition ok :: "Status \<Rightarrow> bool" where
  "ok s = (code s = kOk)"

text \<open>\<^verbatim>\<open>Status::Update\<close>: an OK status takes the new value, an error is kept.\<close>

definition Update :: "Status \<Rightarrow> Status \<Rightarrow> Status" where
  "Update overall new_status = (if ok overall then new_status else overall)"


section \<open>UDF client: installing a code object\<close>

text \<open>
  \<^verbatim>\<open>components/udf/noop_udf_client.cc\<close>, class \<^verbatim>\<open>UdfClientImpl\<close>. The
  logical commit time and the version are signed 64-bit integers in the source; they are
  only compared and stored, so they are modelled as \<^typ>\<open>int\<close>.
\<close>

record CodeConfig =
  js :: string
  wasm :: string
  udf_handler_name :: string
  logical_commit_time :: int
  version :: int

record CodeObject =
  co_id :: string
  co_version_num :: int
  co_js :: string
  co_wasm :: string

text \<open>
  The three private members of \<^verbatim>\<open>UdfClientImpl\<close> that a code update writes
  (\<^verbatim>\<open>handler_name_\<close>, \<^verbatim>\<open>logical_commit_time_\<close>, \<^verbatim>\<open>version_\<close>; a name cannot
  end in an underscore here, so the members carry the prefix \<open>m_\<close>).
\<close>

record UdfClientImpl =
  m_handler_name :: string
  m_logical_commit_time :: int
  m_version :: int

text \<open>Member initialisers: empty handler name, commit time \<open>-1\<close>, version \<open>1\<close>.\<close>

definition UdfClientImpl_new :: UdfClientImpl where
  "UdfClientImpl_new = \<lparr>m_handler_name = [], m_logical_commit_time = - 1, m_version = 1\<rparr>"

text \<open>
  What Roma does with one \<^verbatim>\<open>LoadCodeObj\<close> call, as \<^verbatim>\<open>SetCodeObject\<close>
  observes it: the status returned by the call itself, whether the callback notified
  within \<^verbatim>\<open>kCodeUpdateTimeout\<close>, and the status the callback recorded.
\<close>

record LoadResult =
  load_status :: Status
  notified :: bool
  response_status :: Status

definition kCodeObjectId :: string where
  "kCodeObjectId = ''id''"

text \<open>\<^verbatim>\<open>static_cast<uint64_t>(version)\<close> is the value modulo \<open>2^64\<close>.\<close>

definition BuildCodeObject :: "string \<Rightarrow> string \<Rightarrow> int \<Rightarrow> CodeObject" where
  "BuildCodeObject j w v =
     \<lparr>co_id = kCodeObjectId, co_version_num = v mod 2 ^ 64, co_js = j, co_wasm = w\<rparr>"

definition SetCodeObject ::
  "(CodeObject \<Rightarrow> LoadResult) \<Rightarrow> CodeConfig \<Rightarrow> UdfClientImpl \<Rightarrow> Status \<times> UdfClientImpl" where
  "SetCodeObject LoadCodeObj code_config c =
     (if m_logical_commit_time c \<ge> logical_commit_time code_config then (OkStatus, c)
      else
        let r = LoadCodeObj (BuildCodeObject (js code_config) (wasm code_config)
                               (version code_config))
        in if \<not> ok (load_status r) then (load_status r, c)
           else if \<not> notified r then
             (InternalError ''Timed out setting UDF code object.'', c)
           else if \<not> ok (response_status r) then (response_status r, c)
           else (OkStatus,
                 c\<lparr>m_handler_name := udf_handler_name code_config,
                   m_logical_commit_time := logical_commit_time code_config,
                   m_version := version code_config\<rparr>))"

text \<open>\<^verbatim>\<open>SetWasmCodeObject\<close> forwards to \<^verbatim>\<open>SetCodeObject\<close>.\<close>

definition SetWasmCodeObject ::
  "(CodeObject \<Rightarrow> LoadResult) \<Rightarrow> CodeConfig \<Rightarrow> UdfClientImpl \<Rightarrow> Status \<times> UdfClientImpl" where
  "SetWasmCodeObject LoadCodeObj code_config c =
     (let (code_object_status, c') = SetCodeObject LoadCodeObj code_config c
      in if \<not> ok code_object_status then (code_object_status, c') else (OkStatus, c'))"

text \<open>The load of a code object went through: accepted, acknowledged in time, OK.\<close>

definition load_succeeds :: "(CodeObject \<Rightarrow> LoadResult) \<Rightarrow> CodeConfig \<Rightarrow> bool" where
  "load_succeeds LoadCodeObj code_config =
     (let r = LoadCodeObj (BuildCodeObject (js code_config) (wasm code_config)
                             (version code_config))
      in ok (load_status r) \<and> notified r \<and> ok (response_status r))"

text \<open>The client after the three assignments that end a successful update.\<close>

definition installed :: "CodeConfig \<Rightarrow> UdfClientImpl \<Rightarrow> UdfClientImpl" where
  "installed code_config c =
     c\<lparr>m_handler_name := udf_handler_name code_config,
       m_logical_commit_time := logical_commit_time code_config,
       m_version := version code_config\<rparr>"

text \<open>A sequence of \<^verbatim>\<open>SetCodeObject\<close> calls, each with Roma's answer to it.\<close>

fun set_code_objects ::
  "((CodeObject \<Rightarrow> LoadResult) \<times> CodeConfig) list \<Rightarrow> UdfClientImpl \<Rightarrow> UdfClientImpl" where
  "set_code_objects [] c = c"
| "set_code_objects ((l, cfg) # calls) c = set_code_objects calls (snd (SetCodeObject l cfg c))"

text \<open>Answers of Roma to a load, used in the examples.\<close>

definition load_ok :: "CodeObject \<Rightarrow> LoadResult" where
  "load_ok obj = \<lparr>load_status = OkStatus, notified = True, response_status = OkStatus\<rparr>"

definition load_timed_out :: "CodeObject \<Rightarrow> LoadResult" where
  "load_timed_out obj = \<lparr>load_status = OkStatus, notified = False, response_status = OkStatus\<rparr>"

definition load_rejected :: "CodeObject \<Rightarrow> LoadResult" where
  "load_rejected obj =
     \<lparr>load_status = InternalError ''Roma is not running'', notified = False,
      response_status = OkStatus\<rparr>"


section \<open>Record stream readers\<close>

text \<open>
  \<^verbatim>\<open>public/data_loading/readers/riegeli_stream_io.h\<close>. Positions and sizes are
  \<^verbatim>\<open>int64_t\<close> in the source and \<^typ>\<open>int\<close> here: the sums the code forms stay
  below \<open>2 * stream_size + 1\<close>, so nothing wraps for stream sizes below \<open>2^62\<close>; the
  properties below are stated for stream sizes up to \<open>2^53\<close>.
\<close>

subsection \<open>Decimal formatting (\<^verbatim>\<open>%d\<close> of \<^verbatim>\<open>absl::StrFormat\<close>)\<close>

fun nat_digits :: "nat \<Rightarrow> string" where
  "nat_digits n =
     (if n < 10 then [''0123456789'' ! n]
      else nat_digits (n div 10) @ [''0123456789'' ! (n mod 10)])"

declare nat_digits.simps [simp del]

definition StrFormat_d :: "int \<Rightarrow> string" where
  "StrFormat_d i = (if i < 0 then CHR ''-'' # nat_digits (nat (- i)) else nat_digits (nat i))"

subsection \<open>Building the shards\<close>

record ShardRange =
  start_pos :: int
  end_pos :: int

record ShardResult =
  first_record_pos :: int
  next_shard_first_record_pos :: int
  num_records_read :: int

text \<open>
  \<^verbatim>\<open>RecordStreamSize\<close>: the argument is what \<^verbatim>\<open>tellg\<close> answers after seeking to the
  end of a fresh stream.
\<close>

definition RecordStreamSize :: "int \<Rightarrow> Status + int" where
  "RecordStreamSize tellg =
     (if tellg = - 1 then Inl (InvalidArgumentError ''Input streams do not support seeking.'')
      else Inr tellg)"

text \<open>
  The arithmetic of \<^verbatim>\<open>double\<close> (IEEE 754 binary64, round to nearest, ties to even),
  for the values the shard size is computed from. A real number is rounded to 53
  significant bits: it is scaled by powers of two until it lies between \<open>2^52\<close> and
  \<open>2^53\<close>, rounded to an integer with ties going to the even neighbour, and scaled
  back. Overflow and subnormal numbers are not modelled: quotients of 64-bit integers
  are far inside the range of normal numbers.
\<close>

definition round_half_even :: "real \<Rightarrow> int" where
  "round_half_even x =
     (let f = \<lfloor>x\<rfloor>
      in if x - of_int f < 1 / 2 then f
         else if 1 / 2 < x - of_int f then f + 1
         else if even f then f else f + 1)"

text \<open>Halving down to below \<open>2^53\<close>, with the scale that undoes it.\<close>

function scale_down :: "real \<Rightarrow> real \<Rightarrow> real \<times> real" where
  "scale_down m s = (if 2 ^ 53 \<le> m then scale_down (m / 2) (2 * s) else (m, s))"
  by pat_completeness auto
termination
proof (relation "measure (\<lambda>(m, s). nat \<lfloor>m\<rfloor>)")
  show "wf (measure (\<lambda>(m, s). nat \<lfloor>m\<rfloor>))" by simp
next
  fix m s :: real
  assume a: "2 ^ 53 \<le> m"
  then have "2 \<le> m" by simp
  then have "m / 2 \<le> m - 1" by simp
  then have "\<lfloor>m / 2\<rfloor> \<le> \<lfloor>m - 1\<rfloor>" by (rule floor_mono)
  then have "\<lfloor>m / 2\<rfloor> < \<lfloor>m\<rfloor>" by simp
  moreover have "0 < \<lfloor>m\<rfloor>" using \<open>2 \<le> m\<close> by simp
  ultimately show "((m / 2, 2 * s), (m, s)) \<in> measure (\<lambda>(m, s). nat \<lfloor>m\<rfloor>)" by simp
qed

text \<open>Doubling up to at least \<open>2^52\<close>, with the scale that undoes it.\<close>

function scale_up :: "real \<Rightarrow> real \<Rightarrow> real \<times> real" where
  "scale_up m s = (if 0 < m \<and> m < 2 ^ 52 then scale_up (2 * m) (s / 2) else (m, s))"
  by pat_completeness auto
termination
proof (relation "measure (\<lambda>(m, s). nat \<lceil>2 ^ 52 / m\<rceil>)")
  show "wf (measure (\<lambda>(m, s). nat \<lceil>2 ^ 52 / m\<rceil>))" by simp
next
  fix m s :: real
  assume a: "0 < m \<and> m < 2 ^ 52"
  define y where "y = 2 ^ 52 / m"
  have y1: "1 < y" using a by (simp add: y_def)
  then have c2: "2 \<le> \<lceil>y\<rceil>" by linarith
  have le: "y \<le> real_of_int \<lceil>y\<rceil>" by (rule le_of_int_ceiling)
  have c2r: "2 \<le> real_of_int \<lceil>y\<rceil>" using c2 by linarith
  have "y / 2 \<le> real_of_int \<lceil>y\<rceil> - 1" using le c2r by linarith
  then have "y / 2 \<le> of_int (\<lceil>y\<rceil> - 1)" by simp
  then have "\<lceil>y / 2\<rceil> \<le> \<lceil>y\<rceil> - 1" by (rule ceiling_le)
  then have lt: "\<lceil>y / 2\<rceil> < \<lceil>y\<rceil>" by linarith
  have eq: "2 ^ 52 / (2 * m) = y / 2" by (simp add: y_def)
  have "\<lceil>2 ^ 52 / (2 * m)\<rceil> < \<lceil>2 ^ 52 / m\<rceil>"
    unfolding eq using lt by (simp only: y_def)
  moreover have "0 < \<lceil>2 ^ 52 / m\<rceil>" using c2 unfolding y_def by linarith
  ultimately show "((2 * m, s / 2), (m, s)) \<in> measure (\<lambda>(m, s). nat \<lceil>2 ^ 52 / m\<rceil>)"
    by simp
qed

declare scale_down.simps [simp del]
declare scale_up.simps [simp del]

definition round_to_double :: "real \<Rightarrow> real" where
  "round_to_double x =
     (if x = 0 then 0
      else
        let (m1, s1) = scale_down \<bar>x\<bar> 1;
            (m, s) = scale_up m1 s1
        in sgn x * of_int (round_half_even m) * s)"

text \<open>
  The shard size: \<^verbatim>\<open>(double)*stream_size / options_.num_worker_threads\<close> converts
  both integers to \<^verbatim>\<open>double\<close> and divides them there, \<^verbatim>\<open>std::ceil\<close> rounds the
  quotient up and the cast to \<^verbatim>\<open>int64_t\<close> keeps its value (the value is below
  \<open>2^63\<close> for every stream size below \<open>2^63 - 2^9\<close>).
\<close>

definition double_of_int :: "int \<Rightarrow> real" where
  "double_of_int n = round_to_double (of_int n)"

definition double_divide :: "real \<Rightarrow> real \<Rightarrow> real" where
  "double_divide a b = round_to_double (a / b)"

definition shard_size_of :: "int \<Rightarrow> int \<Rightarrow> int \<Rightarrow> int" where
  "shard_size_of stream_size num_worker_threads min_shard_size_bytes =
     min stream_size
       (max \<lceil>double_divide (double_of_int stream_size) (double_of_int num_worker_threads)\<rceil>
            min_shard_size_bytes)"

text \<open>
  The \<^verbatim>\<open>while (shard_start_pos < *stream_size)\<close> loop. With a negative shard size
  the start position never advances, so the loop is a partial function and its
  termination is a theorem about the shard sizes that \<^verbatim>\<open>BuildShards\<close> computes.
\<close>

partial_function (option) shards_loop ::
  "int \<Rightarrow> int \<Rightarrow> int \<Rightarrow> ShardRange list \<Rightarrow> ShardRange list option" where
  "shards_loop stream_size shard_size shard_start_pos shards =
     (if shard_start_pos < stream_size then
        let shard_end_pos = min (shard_start_pos + shard_size) stream_size
        in shards_loop stream_size shard_size (shard_end_pos + 1)
             (shards @ [\<lparr>start_pos = shard_start_pos, end_pos = shard_end_pos\<rparr>])
      else Some shards)"

text \<open>
  \<^verbatim>\<open>BuildShards\<close>, from the answer of \<^verbatim>\<open>tellg\<close> and the two options. \<open>None\<close> stands
  for a loop that does not return.
\<close>

definition BuildShards :: "int \<Rightarrow> int \<Rightarrow> int \<Rightarrow> (Status + ShardRange list) option" where
  "BuildShards tellg num_worker_threads min_shard_size_bytes =
     (case RecordStreamSize tellg of
        Inl st \<Rightarrow> Some (Inl st)
      | Inr stream_size \<Rightarrow>
          if num_worker_threads < 1 then
            Some (Inl (InvalidArgumentError
              (''Num worker threads '' @ StrFormat_d num_worker_threads
                 @ '' must be at least 1.'')))
          else
            (case shards_loop stream_size
                    (shard_size_of stream_size num_worker_threads min_shard_size_bytes) 0 [] of
               None \<Rightarrow> None
             | Some shards \<Rightarrow>
                 if shards = [] \<or> end_pos (last shards) \<noteq> stream_size
                 then Some (Inl (InternalError ''Failed to generate shards.''))
                 else Some (Inr shards)))"



subsection \<open>Reading the records\<close>

text \<open>
  A Riegeli record reader as the reading loops see it: the records that successive
  \<^verbatim>\<open>ReadRecord\<close> calls deliver, each with the reader's position after it, and the
  reader's status once \<^verbatim>\<open>ReadRecord\<close> answers false (OK at the end of the file, an
  error otherwise). Regions skipped by the recovery callback are inside the reader.
\<close>

record 'r RecordReader =
  records :: "('r \<times> int) list"
  final_status :: Status

text \<open>
  What a read hands back in the model: the status the function returns, the records the
  callback was invoked on, in order, and the callback error that was written to the log.
\<close>

record 'r ReadOutcome =
  returned :: Status
  delivered :: "'r list"
  logged :: "Status option"

definition log_if_error :: "Status \<Rightarrow> Status option" where
  "log_if_error overall_status = (if ok overall_status then None else Some overall_status)"

text \<open>\<^verbatim>\<open>RiegeliStreamReader::ReadStreamRecords\<close>: the loop, then the function.\<close>

fun read_records_loop ::
  "('r \<Rightarrow> Status) \<Rightarrow> ('r \<times> int) list \<Rightarrow> Status \<Rightarrow> 'r list \<Rightarrow> Status \<times> 'r list" where
  "read_records_loop callback [] overall_status seen = (overall_status, seen)"
| "read_records_loop callback ((record, p) # rest) overall_status seen =
     read_records_loop callback rest (Update overall_status (callback record)) (seen @ [record])"

definition RiegeliStreamReader_ReadStreamRecords ::
  "('r \<Rightarrow> Status) \<Rightarrow> 'r RecordReader \<Rightarrow> 'r ReadOutcome" where
  "RiegeliStreamReader_ReadStreamRecords callback reader =
     (let (overall_status, seen) = read_records_loop callback (records reader) OkStatus []
      in \<lparr>returned = final_status reader, delivered = seen,
          logged = log_if_error overall_status\<rparr>)"

text \<open>
  The reader a shard task works on, after \<^verbatim>\<open>Seek(shard.start_pos)\<close>: whether the
  seek succeeded, the position it left the reader at, and the reader from there.
\<close>

record 'r ShardReader =
  seek_ok :: bool
  seek_pos :: int
  reader :: "'r RecordReader"

text \<open>
  The loop of \<^verbatim>\<open>ReadShardRecords\<close>. \<^verbatim>\<open>ReadRecord\<close> is only called while the
  position is inside the shard; the first component of the result is the reader's status
  when the loop is left. The reader's positions are unsigned 64-bit numbers in the
  source; the end of a shard is never negative, so the comparison with it is the
  comparison of the integers.
\<close>

fun shard_records_loop ::
  "('r \<Rightarrow> Status) \<Rightarrow> int \<Rightarrow> Status \<Rightarrow> int \<Rightarrow> ('r \<times> int) list \<Rightarrow> int \<Rightarrow> Status \<Rightarrow> 'r list
     \<Rightarrow> Status \<times> int \<times> int \<times> Status \<times> 'r list" where
  "shard_records_loop record_callback shard_end fin next_record_pos [] n overall_status seen =
     (if next_record_pos \<le> shard_end then (fin, next_record_pos, n, overall_status, seen)
      else (OkStatus, next_record_pos, n, overall_status, seen))"
| "shard_records_loop record_callback shard_end fin next_record_pos ((record, p) # rest) n
       overall_status seen =
     (if next_record_pos \<le> shard_end then
        shard_records_loop record_callback shard_end fin p rest (n + 1)
          (Update overall_status (record_callback record)) (seen @ [record])
      else (OkStatus, next_record_pos, n, overall_status, seen))"

definition ReadShardRecords ::
  "('r \<Rightarrow> Status) \<Rightarrow> ShardRange \<Rightarrow> 'r ShardReader
     \<Rightarrow> (Status + ShardResult) \<times> 'r list \<times> Status option" where
  "ReadShardRecords record_callback shard record_reader =
     (if \<not> seek_ok record_reader then
        (Inl (final_status (reader record_reader)), [], None)
      else
        let (reader_status, next_record_pos, n, overall_status, seen) =
              shard_records_loop record_callback (end_pos shard)
                (final_status (reader record_reader)) (seek_pos record_reader)
                (records (reader record_reader)) 0 OkStatus []
        in if \<not> ok reader_status then (Inl reader_status, seen, log_if_error overall_status)
           else (Inr \<lparr>first_record_pos = seek_pos record_reader,
                      next_shard_first_record_pos = next_record_pos,
                      num_records_read = n\<rparr>,
                 seen, log_if_error overall_status))"

definition skipped_message :: "int \<Rightarrow> int \<Rightarrow> string" where
  "skipped_message x y =
     ''Skipped some records between byte='' @ StrFormat_d x @ '' and byte=''
       @ StrFormat_d y @ ''.''"

text \<open>
  The second half of \<^verbatim>\<open>ConcurrentStreamRecordReader::ReadStreamRecords\<close>: collecting
  the task results in shard order. The loop from \<open>i = 1\<close> carries the previous result.
\<close>

fun check_shard_results :: "ShardResult \<Rightarrow> (Status + ShardResult) list \<Rightarrow> int \<Rightarrow> Status" where
  "check_shard_results prev_shard_result [] total_records_read = OkStatus"
| "check_shard_results prev_shard_result (Inl st # rest) total_records_read = st"
| "check_shard_results prev_shard_result (Inr curr_shard_result # rest) total_records_read =
     (if next_shard_first_record_pos prev_shard_result < first_record_pos curr_shard_result
      then InternalError
             (skipped_message (next_shard_first_record_pos prev_shard_result)
                (first_record_pos curr_shard_result))
      else check_shard_results curr_shard_result rest
             (total_records_read + num_records_read curr_shard_result))"

text \<open>
  An empty shard list returns \<^verbatim>\<open>shards.status()\<close>, which is OK, before any task
  result is read; otherwise the result of the first task is read first.
\<close>

fun collect_shard_results :: "(Status + ShardResult) list \<Rightarrow> Status" where
  "collect_shard_results [] = OkStatus"
| "collect_shard_results (Inl st # rest) = st"
| "collect_shard_results (Inr prev_shard_result # rest) =
     check_shard_results prev_shard_result rest (num_records_read prev_shard_result)"

text \<open>
  \<^verbatim>\<open>ConcurrentStreamRecordReader::ReadStreamRecords\<close> from the result of
  \<^verbatim>\<open>BuildShards\<close>. \<open>reader_at\<close> is the stream factory followed by the seek: the
  reader a task gets for a start position. Every task is started before the first
  result is read, so every shard's records are in the outcome, one list per shard.
\<close>

definition ReadStreamRecords_shards ::
  "('r \<Rightarrow> Status) \<Rightarrow> (int \<Rightarrow> 'r ShardReader) \<Rightarrow> Status + ShardRange list
     \<Rightarrow> Status \<times> 'r list list \<times> Status option list" where
  "ReadStreamRecords_shards callback reader_at shards =
     (case shards of
        Inl st \<Rightarrow> (st, [], [])
      | Inr ranges \<Rightarrow>
          let shard_reader_tasks =
                map (\<lambda>shard. ReadShardRecords callback shard (reader_at (start_pos shard))) ranges
          in (collect_shard_results (map fst shard_reader_tasks),
              map (\<lambda>t. fst (snd t)) shard_reader_tasks,
              map (\<lambda>t. snd (snd t)) shard_reader_tasks))"

definition ConcurrentStreamRecordReader_ReadStreamRecords ::
  "('r \<Rightarrow> Status) \<Rightarrow> (int \<Rightarrow> 'r ShardReader) \<Rightarrow> int \<Rightarrow> int \<Rightarrow> int
     \<Rightarrow> (Status \<times> 'r list list \<times> Status option list) option" where
  "ConcurrentStreamRecordReader_ReadStreamRecords callback reader_at tellg num_worker_threads
       min_shard_size_bytes =
     map_option (ReadStreamRecords_shards callback reader_at)
       (BuildShards tellg num_worker_threads min_shard_size_bytes)"


section \<open>UDF client: executing code\<close>

text \<open>
  \<^verbatim>\<open>google.protobuf.Value\<close>. The payload of a number is a \<^verbatim>\<open>double\<close> that the
  code only passes on, so its type is left open.
\<close>

datatype 'n PValue =
    KindNotSet
  | NullValue
  | NumberValue 'n
  | StringValue string
  | BoolValue bool
  | StructValue "(string \<times> 'n PValue) list"
  | ListValue "'n PValue list"

text \<open>
  \<^verbatim>\<open>UDFArgument\<close>: \<open>tags\<close> is the \<^verbatim>\<open>values\<close> list of the tags field,
  \<open>data\<close> the data field.
\<close>

record 'n UDFArgument =
  tags :: "'n PValue list"
  data :: "'n PValue"

record 'n UDFExecutionMetadata =
  request_metadata :: "(string \<times> 'n PValue) list"
  udf_interface_version :: int

text \<open>The messages that \<^verbatim>\<open>ExecuteCode\<close> hands to \<^verbatim>\<open>MessageToJsonString\<close>.\<close>

datatype 'n Message =
    MetadataMessage "'n UDFExecutionMetadata"
  | ValueMessage "'n PValue"
  | ArgumentMessage "'n UDFArgument"

definition kUdfInterfaceVersion :: int where
  "kUdfInterfaceVersion = 1"

definition kInvocationRequestId :: string where
  "kInvocationRequestId = ''id''"

record InvocationRequestStrInput =
  ir_id :: string
  ir_version_num :: int
  ir_handler_name :: string
  ir_input :: "string list"

definition BuildInvocationRequest :: "UdfClientImpl \<Rightarrow> string list \<Rightarrow> InvocationRequestStrInput" where
  "BuildInvocationRequest c keys =
     \<lparr>ir_id = kInvocationRequestId, ir_version_num = m_version c mod 2 ^ 64,
      ir_handler_name = m_handler_name c, ir_input = keys\<rparr>"

text \<open>
  What Roma does with one \<^verbatim>\<open>Execute\<close> call: the status of the call, whether
  the callback notified within the UDF timeout, and the response the callback received.
\<close>

record ExecuteResult =
  execute_status :: Status
  execute_notified :: bool
  execute_response :: "Status + string"

text \<open>
  \<^verbatim>\<open>ExecuteCode(std::vector<std::string> keys)\<close>. The shared status starts OK and the
  shared result starts empty; the callback fills one of them.
\<close>

definition ExecuteCode_keys ::
  "(InvocationRequestStrInput \<Rightarrow> ExecuteResult) \<Rightarrow> UdfClientImpl \<Rightarrow> string list
     \<Rightarrow> Status + string" where
  "ExecuteCode_keys Execute c keys =
     (let r = Execute (BuildInvocationRequest c keys)
      in if \<not> ok (execute_status r) then Inl (execute_status r)
         else if \<not> execute_notified r then
           Inl (InternalError ''Timed out waiting for UDF result.'')
         else
           (case execute_response r of
              Inr resp \<Rightarrow> Inr resp
            | Inl st \<Rightarrow> if \<not> ok (Update OkStatus st) then Inl (Update OkStatus st) else Inr []))"

text \<open>The \<^verbatim>\<open>for\<close> loop over the arguments; an error of the serializer returns at once.\<close>

fun serialize_arguments ::
  "('n Message \<Rightarrow> Status + string) \<Rightarrow> 'n UDFArgument list \<Rightarrow> string list
     \<Rightarrow> Status + string list" where
  "serialize_arguments MessageToJsonString [] string_args = Inr string_args"
| "serialize_arguments MessageToJsonString (arg # rest) string_args =
     (let arg_data = (if tags arg = [] then ValueMessage (data arg) else ArgumentMessage arg)
      in case MessageToJsonString arg_data of
           Inl json_status \<Rightarrow> Inl json_status
         | Inr json_arg \<Rightarrow>
             serialize_arguments MessageToJsonString rest (string_args @ [json_arg]))"

text \<open>\<^verbatim>\<open>ExecuteCode(UDFExecutionMetadata&&, const RepeatedPtrField<UDFArgument>&)\<close>.\<close>

definition ExecuteCode ::
  "('n Message \<Rightarrow> Status + string) \<Rightarrow> (InvocationRequestStrInput \<Rightarrow> ExecuteResult)
     \<Rightarrow> UdfClientImpl \<Rightarrow> 'n UDFExecutionMetadata \<Rightarrow> 'n UDFArgument list \<Rightarrow> Status + string" where
  "ExecuteCode MessageToJsonString Execute c execution_metadata arguments =
     (case MessageToJsonString
             (MetadataMessage
                (execution_metadata\<lparr>udf_interface_version := kUdfInterfaceVersion\<rparr>)) of
        Inl json_status \<Rightarrow> Inl json_status
      | Inr json_metadata \<Rightarrow>
          (case serialize_arguments MessageToJsonString arguments [json_metadata] of
             Inl json_status \<Rightarrow> Inl json_status
           | Inr string_args \<Rightarrow> ExecuteCode_keys Execute c string_args))"


section \<open>The getValues hook\<close>

text \<open>
  \<^verbatim>\<open>components/udf/hooks/get_values_hook.cc\<close>. The JSON values of the nlohmann
  library, as far as the hook builds them; \<^verbatim>\<open>dump\<close> and \<^verbatim>\<open>parse\<close> are the library's
  and are parameters below, as is the serializer of the protocol buffers.
\<close>

datatype Json =
    JNull
  | JBool bool
  | JNumber int
  | JString string
  | JArray "Json list"
  | JObject "(string \<times> Json) list"

datatype JsonException = TypeError

text \<open>
  \<^verbatim>\<open>j[key]\<close> followed by an assignment: an object gets the member, null becomes an
  object first, any other value raises \<^verbatim>\<open>type_error\<close>.
\<close>

fun json_member :: "Json \<Rightarrow> string \<Rightarrow> JsonException + Json" where
  "json_member (JObject members) k =
     Inr (case map_of members k of None \<Rightarrow> JNull | Some v \<Rightarrow> v)"
| "json_member JNull k = Inr JNull"
| "json_member j k = Inl TypeError"

fun json_assign :: "Json \<Rightarrow> string \<Rightarrow> Json \<Rightarrow> JsonException + Json" where
  "json_assign (JObject members) k v = Inr (JObject (AList.update k v members))"
| "json_assign JNull k v = Inr (JObject [(k, v)])"
| "json_assign j k v = Inl TypeError"

text \<open>\<^verbatim>\<open>j[k1][k2] = v\<close>.\<close>

definition json_assign2 :: "Json \<Rightarrow> string \<Rightarrow> string \<Rightarrow> Json \<Rightarrow> JsonException + Json" where
  "json_assign2 j k1 k2 v =
     (case json_member j k1 of
        Inl e \<Rightarrow> Inl e
      | Inr inner \<Rightarrow>
          (case json_assign inner k2 v of
             Inl e \<Rightarrow> Inl e
           | Inr inner' \<Rightarrow> json_assign j k1 inner'))"

datatype OutputType = kString | kBinary

text \<open>The \<^verbatim>\<open>oneof\<close> fields of \<^verbatim>\<open>FunctionBindingIoProto\<close>.\<close>

datatype IoInput =
    InputNotSet
  | InputString string
  | InputListOfString "string list"
  | InputMapOfString "(string \<times> string) list"
  | InputBytes string

datatype IoOutput =
    OutputNotSet
  | OutputString string
  | OutputListOfString "string list"
  | OutputMapOfString "(string \<times> string) list"
  | OutputBytes string

record FunctionBindingIoProto =
  io_input :: IoInput
  io_output :: IoOutput

record ProtoStatus =
  status_code :: int
  status_message :: string

datatype SingleLookupResult =
    ResultNotSet
  | ResultValue string
  | ResultStatus ProtoStatus
  | ResultKeysetValues "string list"

record InternalLookupResponse =
  lookup_kv_pairs :: "(string \<times> SingleLookupResult) list"

record BinaryValue =
  bv_status :: "ProtoStatus option"
  bv_data :: "string option"

record BinaryGetValuesResponse =
  binary_kv_pairs :: "(string \<times> BinaryValue) list"
  binary_status :: "ProtoStatus option"

definition kOkStatusMessage :: string where
  "kOkStatusMessage = ''ok''"

definition GetStatus :: "int \<Rightarrow> string \<Rightarrow> ProtoStatus" where
  "GetStatus c m = \<lparr>status_code = c, status_message = m\<rparr>"

text \<open>
  The libraries the hook calls: \<^verbatim>\<open>SerializeToArray\<close> of the binary response,
  \<^verbatim>\<open>dump\<close> and \<^verbatim>\<open>parse\<close> of the JSON library (a discarded parse is \<open>None\<close>), and
  \<^verbatim>\<open>MessageToJsonString\<close> of the lookup response.
\<close>

record HookLibraries =
  SerializeToArray :: "BinaryGetValuesResponse \<Rightarrow> string"
  json_dump :: "Json \<Rightarrow> string"
  json_parse :: "string \<Rightarrow> Json option"
  ResponseToJsonString :: "InternalLookupResponse \<Rightarrow> Status + string"

definition SetBinaryGetValuesAsBytes ::
  "HookLibraries \<Rightarrow> BinaryGetValuesResponse \<Rightarrow> FunctionBindingIoProto \<Rightarrow> FunctionBindingIoProto" where
  "SetBinaryGetValuesAsBytes libs binary_response io =
     io\<lparr>io_output := OutputBytes (SerializeToArray libs binary_response)\<rparr>"

definition SetStatusAsBytes ::
  "HookLibraries \<Rightarrow> StatusCode \<Rightarrow> string \<Rightarrow> FunctionBindingIoProto \<Rightarrow> FunctionBindingIoProto" where
  "SetStatusAsBytes libs c m io =
     SetBinaryGetValuesAsBytes libs
       \<lparr>binary_kv_pairs = [], binary_status = Some (GetStatus (code_number c) m)\<rparr> io"

definition binary_value_of :: "SingleLookupResult \<Rightarrow> BinaryValue" where
  "binary_value_of v =
     \<lparr>bv_status = (case v of ResultStatus st \<Rightarrow>
                      Some (GetStatus (status_code st) (status_message st)) | _ \<Rightarrow> None),
      bv_data = (case v of ResultValue x \<Rightarrow> Some x | _ \<Rightarrow> None)\<rparr>"

definition SetOutputAsBytes ::
  "HookLibraries \<Rightarrow> InternalLookupResponse \<Rightarrow> FunctionBindingIoProto \<Rightarrow> FunctionBindingIoProto" where
  "SetOutputAsBytes libs response io =
     SetBinaryGetValuesAsBytes libs
       \<lparr>binary_kv_pairs = map (\<lambda>(k, v). (k, binary_value_of v)) (lookup_kv_pairs response),
        binary_status = Some (GetStatus 0 kOkStatusMessage)\<rparr> io"

text \<open>The JSON object \<^verbatim>\<open>SetStatusAsString\<close> builds; the library keeps keys sorted.\<close>

definition status_json :: "StatusCode \<Rightarrow> string \<Rightarrow> Json" where
  "status_json c m = JObject [(''code'', JNumber (code_number c)), (''message'', JString m)]"

definition SetStatusAsString ::
  "HookLibraries \<Rightarrow> StatusCode \<Rightarrow> string \<Rightarrow> FunctionBindingIoProto \<Rightarrow> FunctionBindingIoProto" where
  "SetStatusAsString libs c m io =
     io\<lparr>io_output := OutputString (json_dump libs (status_json c m))\<rparr>"

definition SetOutputAsString ::
  "HookLibraries \<Rightarrow> InternalLookupResponse \<Rightarrow> FunctionBindingIoProto
     \<Rightarrow> JsonException + FunctionBindingIoProto" where
  "SetOutputAsString libs response io =
     (case ResponseToJsonString libs response of
        Inl json_status \<Rightarrow>
          Inr (SetStatusAsString libs (code json_status) (message json_status) io)
      | Inr kv_pairs_json \<Rightarrow>
          (case json_parse libs kv_pairs_json of
             None \<Rightarrow>
               Inr (SetStatusAsString libs kInvalidArgument
                      ''Error while parsing JSON string.'' io)
           | Some kv_pairs_json_object \<Rightarrow>
               (case json_assign2 kv_pairs_json_object ''status'' ''code'' (JNumber 0) of
                  Inl e \<Rightarrow> Inl e
                | Inr j1 \<Rightarrow>
                    (case json_assign2 j1 ''status'' ''message'' (JString kOkStatusMessage) of
                       Inl e \<Rightarrow> Inl e
                     | Inr j2 \<Rightarrow> Inr (io\<lparr>io_output := OutputString (json_dump libs j2)\<rparr>)))))"

text \<open>
  A lookup is its \<^verbatim>\<open>GetKeyValues\<close>. The member \<^verbatim>\<open>lookup_\<close> is a
  \<^verbatim>\<open>unique_ptr\<close>, null until \<^verbatim>\<open>FinishInit\<close> stores one.
\<close>

type_synonym Lookup = "string set \<Rightarrow> Status + InternalLookupResponse"

record GetValuesHookImpl =
  m_lookup :: "Lookup option"
  m_output_type :: OutputType

definition GetValuesHook_Create :: "OutputType \<Rightarrow> GetValuesHookImpl" where
  "GetValuesHook_Create output_type = \<lparr>m_lookup = None, m_output_type = output_type\<rparr>"

definition FinishInit :: "Lookup option \<Rightarrow> GetValuesHookImpl \<Rightarrow> GetValuesHookImpl" where
  "FinishInit lookup h = (if m_lookup h = None then h\<lparr>m_lookup := lookup\<rparr> else h)"

definition SetStatus ::
  "HookLibraries \<Rightarrow> GetValuesHookImpl \<Rightarrow> StatusCode \<Rightarrow> string \<Rightarrow> FunctionBindingIoProto
     \<Rightarrow> FunctionBindingIoProto" where
  "SetStatus libs h c m io =
     (if m_output_type h = kString then SetStatusAsString libs c m io
      else SetStatusAsBytes libs c m io)"

definition SetOutput ::
  "HookLibraries \<Rightarrow> GetValuesHookImpl \<Rightarrow> InternalLookupResponse \<Rightarrow> FunctionBindingIoProto
     \<Rightarrow> JsonException + FunctionBindingIoProto" where
  "SetOutput libs h response io =
     (if m_output_type h = kString then SetOutputAsString libs response io
      else Inr (SetOutputAsBytes libs response io))"

text \<open>
  \<^verbatim>\<open>operator()\<close>. The result is an exception of the JSON library, or the io object
  after the call together with the key sets that were handed to the lookup.
\<close>

definition hook_call ::
  "HookLibraries \<Rightarrow> GetValuesHookImpl \<Rightarrow> FunctionBindingIoProto
     \<Rightarrow> JsonException + (FunctionBindingIoProto \<times> string set list)" where
  "hook_call libs h io =
     (case m_lookup h of
        None \<Rightarrow> Inr (SetStatus libs h kInternal ''getValues has not been initialized yet'' io, [])
      | Some lookup \<Rightarrow>
          (case io_input io of
             InputListOfString keys_data \<Rightarrow>
               (let keys = set keys_data
                in case lookup keys of
                     Inl st \<Rightarrow> Inr (SetStatus libs h (code st) (message st) io, [keys])
                   | Inr response \<Rightarrow>
                       (case SetOutput libs h response io of
                          Inl e \<Rightarrow> Inl e
                        | Inr io' \<Rightarrow> Inr (io', [keys])))
           | _ \<Rightarrow>
               Inr (SetStatus libs h kInvalidArgument
                      ''getValues input must be list of strings'' io, [])))"

text \<open>Whether \<^verbatim>\<open>has_input_list_of_string()\<close> holds.\<close>

fun has_input_list_of_string :: "FunctionBindingIoProto \<Rightarrow> bool" where
  "has_input_list_of_string io = (case io_input io of InputListOfString _ \<Rightarrow> True | _ \<Rightarrow> False)"


section \<open>The V1 adapter: key group outputs\<close>

text \<open>
  \<^verbatim>\<open>components/data_server/request_handler/get_values_adapter.cc\<close>. An entry of
  \<^verbatim>\<open>key_values\<close> wraps a \<^verbatim>\<open>google.protobuf.Value\<close>; the list is the sequence in
  which the loop visits the entries of the map. The result struct is its \<^verbatim>\<open>fields\<close>
  map. The keys are \<^verbatim>\<open>const\<close> members of the map's entries, so \<^verbatim>\<open>std::move(k)\<close>
  copies and both writes go to the same key.
\<close>

record 'n ValueObject =
  vo_value :: "'n PValue"

fun ProcessKeyValues ::
  "(string \<Rightarrow> Status + 'n PValue) \<Rightarrow> (string \<times> 'n ValueObject) list
     \<Rightarrow> (string \<rightharpoonup> 'n PValue) \<Rightarrow> (string \<rightharpoonup> 'n PValue)" where
  "ProcessKeyValues JsonStringToMessage [] result_struct = result_struct"
| "ProcessKeyValues JsonStringToMessage ((k, v) # rest) result_struct =
     (let parsed_written =
            (case vo_value v of
               StringValue s \<Rightarrow>
                 (case JsonStringToMessage s of
                    Inr value_proto \<Rightarrow> result_struct(k \<mapsto> value_proto)
                  | Inl st \<Rightarrow> result_struct)
             | _ \<Rightarrow> result_struct)
      in ProcessKeyValues JsonStringToMessage rest (parsed_written(k \<mapsto> vo_value v)))"


section \<open>The V2 request handler\<close>

record 'n RequestPartition =
  partition_id :: int
  compression_group_id :: int
  arguments :: "'n UDFArgument list"

record 'n GetValuesRequest =
  metadata :: "(string \<times> 'n PValue) list"
  partitions :: "'n RequestPartition list"

datatype PartitionOutput = StringOutput string | StatusOutput ProtoStatus

record ResponsePartition =
  rp_id :: int
  rp_output :: PartitionOutput

text \<open>
  Modelled from the spec: the V2 request handler (\<^verbatim>\<open>GetValuesV2Handler\<close>, its
  processing of one partition and its Binary HTTP entry point) is not among the sources;
  only its test is. Section 4.7 of the specification: for each partition the handler
  builds the metadata from the request's metadata, calls the UDF with the partition's
  arguments and emits the id with the string output on success, the id with a status of
  code and message on failure. The UDF client is the parameter \<open>udf\<close>. The metadata
  message starts with the default interface version 0. The response is the list of the
  partitions' outputs in the order of the request.
\<close>

definition ProcessOnePartition ::
  "('n UDFExecutionMetadata \<Rightarrow> 'n UDFArgument list \<Rightarrow> Status + string)
     \<Rightarrow> (string \<times> 'n PValue) list \<Rightarrow> 'n RequestPartition \<Rightarrow> ResponsePartition" where
  "ProcessOnePartition udf req_metadata req_partition =
     (case udf \<lparr>request_metadata = req_metadata, udf_interface_version = 0\<rparr>
             (arguments req_partition) of
        Inr output \<Rightarrow>
          \<lparr>rp_id = partition_id req_partition, rp_output = StringOutput output\<rparr>
      | Inl st \<Rightarrow>
          \<lparr>rp_id = partition_id req_partition,
           rp_output = StatusOutput (GetStatus (code_number (code st)) (message st))\<rparr>)"

text \<open>
  Modelled from the spec: \<^verbatim>\<open>GetValuesV2Handler::GetValues\<close> on a parsed request; the
  first component is the code of the gRPC status. Section 7: the transport succeeds and
  the errors of the partitions are carried in their status fields. A request without
  partitions is refused with \<^verbatim>\<open>INTERNAL\<close>, as the handler's test \<^verbatim>\<open>NoPartition\<close>
  expects.
\<close>

definition GetValues ::
  "('n UDFExecutionMetadata \<Rightarrow> 'n UDFArgument list \<Rightarrow> Status + string)
     \<Rightarrow> 'n GetValuesRequest \<Rightarrow> StatusCode \<times> ResponsePartition list" where
  "GetValues udf request =
     (if partitions request = [] then (kInternal, [])
      else (kOk, map (ProcessOnePartition udf (metadata request)) (partitions request)))"

text \<open>
  Modelled from the spec: the response code of the Binary HTTP layer, section 4.6:
  OK is 200, InvalidArgument 400, PermissionDenied 403, NotFound 404, all others 500.
\<close>

fun bhttp_response_code :: "StatusCode \<Rightarrow> int" where
  "bhttp_response_code kOk = 200"
| "bhttp_response_code kInvalidArgument = 400"
| "bhttp_response_code kPermissionDenied = 403"
| "bhttp_response_code kNotFound = 404"
| "bhttp_response_code c = 500"

text \<open>
  Modelled from the spec: \<^verbatim>\<open>BinaryHttpGetValues\<close> on a request whose Binary HTTP
  envelope and JSON body were parsed: the gRPC status is OK and the handler's status
  becomes the response code of the Binary HTTP response.
\<close>

definition BinaryHttpGetValues ::
  "('n UDFExecutionMetadata \<Rightarrow> 'n UDFArgument list \<Rightarrow> Status + string)
     \<Rightarrow> 'n GetValuesRequest \<Rightarrow> StatusCode \<times> int \<times> ResponsePartition list" where
  "BinaryHttpGetValues udf request =
     (let (c, response) = GetValues udf request
      in (kOk, bhttp_response_code c, response))"


section \<open>Examples\<close>

text \<open>
  A reader over three records, a callback that fails on the second of them, and a stream
  factory that seeks to the start of the file or to the third record.
\<close>

definition example_reader :: "string RecordReader" where
  "example_reader = \<lparr>records = [(''a'', 10), (''b'', 20), (''c'', 30)], final_status = OkStatus\<rparr>"

definition failing_callback :: "string \<Rightarrow> Status" where
  "failing_callback r = (if r = ''b'' then InvalidArgumentError ''bad record'' else OkStatus)"

definition example_reader_at :: "int \<Rightarrow> string ShardReader" where
  "example_reader_at p =
     (if p = 0 then \<lparr>seek_ok = True, seek_pos = 0, reader = example_reader\<rparr>
      else \<lparr>seek_ok = True, seek_pos = 20,
            reader = \<lparr>records = [(''c'', 30)], final_status = OkStatus\<rparr>\<rparr>)"


text \<open>
  A serializer and an execution engine for the examples: the serializer names the kind of message
  it was given (and the interface version of a metadata message), the engine answers
  with the inputs of the request, joined by commas.
\<close>

definition example_to_json :: "nat Message \<Rightarrow> Status + string" where
  "example_to_json msg =
     (case msg of
        MetadataMessage md \<Rightarrow> Inr (''metadata:'' @ StrFormat_d (udf_interface_version md))
      | ValueMessage v \<Rightarrow> Inr ''data''
      | ArgumentMessage a \<Rightarrow> Inr ''argument'')"

fun join_inputs :: "string list \<Rightarrow> string" where
  "join_inputs [] = []"
| "join_inputs [x] = x"
| "join_inputs (x # y # ys) = x @ '','' @ join_inputs (y # ys)"

definition example_execute :: "InvocationRequestStrInput \<Rightarrow> ExecuteResult" where
  "example_execute request =
     \<lparr>execute_status = OkStatus, execute_notified = True,
      execute_response = Inr (join_inputs (ir_input request))\<rparr>"


text \<open>
  Libraries for the examples: a printer of JSON values without escapes, a serializer of
  the binary response that prints its status, a parser that discards every input.
\<close>

fun example_dump :: "Json \<Rightarrow> string" where
  "example_dump JNull = ''null''"
| "example_dump (JBool b) = (if b then ''true'' else ''false'')"
| "example_dump (JNumber n) = StrFormat_d n"
| "example_dump (JString s) = s"
| "example_dump (JArray xs) = ''['' @ concat (map (\<lambda>x. example_dump x @ '';'') xs) @ '']''"
| "example_dump (JObject ms) =
     ''{'' @ concat (map (\<lambda>m. fst m @ '':'' @ example_dump (snd m) @ '';'') ms) @ ''}''"

definition example_libs :: HookLibraries where
  "example_libs =
     \<lparr>SerializeToArray =
        (\<lambda>r. case binary_status r of
                None \<Rightarrow> []
              | Some st \<Rightarrow> StrFormat_d (status_code st) @ '':'' @ status_message st),
      json_dump = example_dump,
      json_parse = (\<lambda>s. None),
      ResponseToJsonString = (\<lambda>r. Inr ''{}'')\<rparr>"

definition example_lookup :: Lookup where
  "example_lookup keys = Inr \<lparr>lookup_kv_pairs = []\<rparr>"

definition other_lookup :: Lookup where
  "other_lookup keys = Inl (Status kUnavailable ''shard unreachable'')"


text \<open>
  A parser for the examples: it reads the string \<^verbatim>\<open>42\<close> as the number 42 and refuses
  every other string.
\<close>

definition example_parse :: "string \<Rightarrow> Status + nat PValue" where
  "example_parse s =
     (if s = ''42'' then Inr (NumberValue 42)
      else Inl (InvalidArgumentError ''not a JSON value''))"

text \<open>
  A UDF for the examples: it fails with an internal error when it is given no
  argument and answers \<^verbatim>\<open>ECHO\<close> otherwise.
\<close>

definition example_udf :: "nat UDFExecutionMetadata \<Rightarrow> nat UDFArgument list \<Rightarrow> Status + string" where
  "example_udf md args =
     (if args = [] then Inl (InternalError ''UDF execution error'') else Inr ''ECHO'')"


section \<open>Properties of the UDF client's code updates\<close>

lemma SetCodeObject_unchanged_or_installed:
  "snd (SetCodeObject l cfg c) = c \<or>
   (m_logical_commit_time c < logical_commit_time cfg \<and> load_succeeds l cfg \<and>
    SetCodeObject l cfg c = (OkStatus, installed cfg c))"
  by (simp add: SetCodeObject_def load_succeeds_def installed_def Let_def)

lemma SetCodeObject_lct_mono:
  "m_logical_commit_time c \<le> m_logical_commit_time (snd (SetCodeObject l cfg c))"
  by (simp add: SetCodeObject_def Let_def)

lemma set_code_objects_lct_mono:
  "m_logical_commit_time c \<le> m_logical_commit_time (set_code_objects calls c)"
proof (induction calls arbitrary: c)
  case Nil
  show ?case by simp
next
  case (Cons call calls)
  obtain l cfg where call: "call = (l, cfg)" by (cases call)
  have "m_logical_commit_time c \<le> m_logical_commit_time (snd (SetCodeObject l cfg c))"
    by (rule SetCodeObject_lct_mono)
  also have "\<dots> \<le> m_logical_commit_time (set_code_objects calls (snd (SetCodeObject l cfg c)))"
    by (rule Cons.IH)
  finally show ?case by (simp add: call)
qed

text \<open>
  Claim C1, as amended. \<^verbatim>\<open>SetCodeObject\<close> on a client whose commit time is
  \<open>m_logical_commit_time c\<close>: a code object whose commit time is not greater leaves the
  client unchanged and the call returns OK; a code object with a greater commit time is
  installed (handler name, commit time and version stored, OK returned) when its load
  into Roma succeeds, and otherwise the client stays unchanged and the load's error is
  returned: the status of \<^verbatim>\<open>LoadCodeObj\<close> when that is not OK, the internal error
  \<^verbatim>\<open>Timed out setting UDF code object.\<close> when the load is not acknowledged in time,
  the status of the response when that is not OK. Once a code object has been installed,
  a following call with a commit time that is not greater leaves that object's handler
  name in place, whatever Roma answers. The last conjuncts spell the four outcomes out
  on the answer \<open>r\<close> of Roma to the code object that is built from the configuration.
\<close>

theorem SetCodeObject_commit_time:
  "(logical_commit_time cfg \<le> m_logical_commit_time c \<longrightarrow>
      SetCodeObject l cfg c = (OkStatus, c))
   \<and> (m_logical_commit_time c < logical_commit_time cfg \<and> load_succeeds l cfg \<longrightarrow>
      SetCodeObject l cfg c = (OkStatus, installed cfg c))
   \<and> (m_logical_commit_time c < logical_commit_time cfg \<and> \<not> load_succeeds l cfg \<longrightarrow>
      snd (SetCodeObject l cfg c) = c \<and> \<not> ok (fst (SetCodeObject l cfg c)))
   \<and> (m_logical_commit_time c < logical_commit_time cfg \<and> load_succeeds l cfg
        \<and> logical_commit_time cfg2 \<le> logical_commit_time cfg \<longrightarrow>
      m_handler_name (snd (SetCodeObject l2 cfg2 (snd (SetCodeObject l cfg c))))
        = udf_handler_name cfg)
   \<and> (\<forall>r. r = l \<lparr>co_id = ''id'', co_version_num = version cfg mod 2 ^ 64,
                   co_js = js cfg, co_wasm = wasm cfg\<rparr>
          \<and> m_logical_commit_time c < logical_commit_time cfg \<longrightarrow>
        (code (load_status r) \<noteq> kOk \<longrightarrow> SetCodeObject l cfg c = (load_status r, c))
        \<and> (code (load_status r) = kOk \<and> \<not> notified r \<longrightarrow>
             SetCodeObject l cfg c
               = (Status kInternal ''Timed out setting UDF code object.'', c))
        \<and> (code (load_status r) = kOk \<and> notified r \<and> code (response_status r) \<noteq> kOk \<longrightarrow>
             SetCodeObject l cfg c = (response_status r, c))
        \<and> (code (load_status r) = kOk \<and> notified r \<and> code (response_status r) = kOk \<longrightarrow>
             SetCodeObject l cfg c
               = (Status kOk [],
                  c\<lparr>m_handler_name := udf_handler_name cfg,
                    m_logical_commit_time := logical_commit_time cfg,
                    m_version := version cfg\<rparr>))
        \<and> load_succeeds l cfg
            = (code (load_status r) = kOk \<and> notified r \<and> code (response_status r) = kOk))
   \<and> OkStatus = Status kOk []"
  by (auto simp add: SetCodeObject_def load_succeeds_def installed_def Let_def ok_def
        OkStatus_def InternalError_def BuildCodeObject_def kCodeObjectId_def)

text \<open>
  Scenario S6 of the specification: code A with commit time 5 on a fresh client, then
  code B with commit time 3; the handler of A stays. And a load that times out on the
  fresh client returns the time-out error and leaves the client as it was.
\<close>

theorem SetCodeObject_commit_time_witness:
  "m_handler_name (snd (SetCodeObject load_ok
      \<lparr>js = ''B'', wasm = [], udf_handler_name = ''HandleB'', logical_commit_time = 3,
       version = 2\<rparr>
      (snd (SetCodeObject load_ok
         \<lparr>js = ''A'', wasm = [], udf_handler_name = ''HandleA'', logical_commit_time = 5,
          version = 1\<rparr>
         UdfClientImpl_new)))) = ''HandleA''
   \<and> SetCodeObject load_timed_out
        \<lparr>js = ''A'', wasm = [], udf_handler_name = ''HandleA'', logical_commit_time = 5,
         version = 1\<rparr>
        UdfClientImpl_new
      = (InternalError ''Timed out setting UDF code object.'', UdfClientImpl_new)"
proof -
  let ?A = "\<lparr>js = ''A'', wasm = [], udf_handler_name = ''HandleA'', logical_commit_time = 5,
        version = 1\<rparr>"
  let ?B = "\<lparr>js = ''B'', wasm = [], udf_handler_name = ''HandleB'', logical_commit_time = 3,
        version = 2\<rparr>"
  have gate: "m_logical_commit_time UdfClientImpl_new < logical_commit_time ?A"
    by (simp add: UdfClientImpl_new_def)
  have ok: "load_succeeds load_ok ?A"
    by (simp add: load_succeeds_def load_ok_def ok_def OkStatus_def)
  have older: "logical_commit_time ?B \<le> logical_commit_time ?A" by simp
  note t = SetCodeObject_commit_time [where cfg = ?A and c = UdfClientImpl_new
      and l = load_ok and ?cfg2.0 = ?B and ?l2.0 = load_ok]
  from t gate ok older have first: "m_handler_name (snd (SetCodeObject load_ok ?B
      (snd (SetCodeObject load_ok ?A UdfClientImpl_new)))) = udf_handler_name ?A"
    by blast
  note u = SetCodeObject_commit_time [where cfg = ?A and c = UdfClientImpl_new
      and l = load_timed_out]
  have st: "code (load_status (load_timed_out \<lparr>co_id = ''id'', co_version_num = version ?A mod 2 ^ 64,
                   co_js = js ?A, co_wasm = wasm ?A\<rparr>)) = kOk"
    and nn: "\<not> notified (load_timed_out \<lparr>co_id = ''id'', co_version_num = version ?A mod 2 ^ 64,
                   co_js = js ?A, co_wasm = wasm ?A\<rparr>)"
    by (simp_all add: load_timed_out_def OkStatus_def)
  from u gate st nn have second: "SetCodeObject load_timed_out ?A UdfClientImpl_new
      = (Status kInternal ''Timed out setting UDF code object.'', UdfClientImpl_new)"
    by blast
  from first second show ?thesis by (simp add: InternalError_def)
qed

text \<open>
  Claim C1 as stated fails: a code object with a greater commit time (5 against 3) is
  not installed when Roma does not acknowledge the load within the timeout; the
  call returns an error and the client keeps the handler it had.
\<close>

theorem SetCodeObject_commit_time_counterexample:
  "m_logical_commit_time \<lparr>m_handler_name = ''HandleA'', m_logical_commit_time = 3, m_version = 1\<rparr>
     < logical_commit_time
         \<lparr>js = ''B'', wasm = [], udf_handler_name = ''HandleB'', logical_commit_time = 5,
          version = 2\<rparr>
   \<and> SetCodeObject load_timed_out
        \<lparr>js = ''B'', wasm = [], udf_handler_name = ''HandleB'', logical_commit_time = 5,
         version = 2\<rparr>
        \<lparr>m_handler_name = ''HandleA'', m_logical_commit_time = 3, m_version = 1\<rparr>
      = (InternalError ''Timed out setting UDF code object.'',
         \<lparr>m_handler_name = ''HandleA'', m_logical_commit_time = 3, m_version = 1\<rparr>)
   \<and> \<lparr>m_handler_name = ''HandleA'', m_logical_commit_time = 3, m_version = 1\<rparr>
      \<noteq> installed
          \<lparr>js = ''B'', wasm = [], udf_handler_name = ''HandleB'', logical_commit_time = 5,
           version = 2\<rparr>
          \<lparr>m_handler_name = ''HandleA'', m_logical_commit_time = 3, m_version = 1\<rparr>"
  by (simp add: SetCodeObject_def load_timed_out_def installed_def ok_def OkStatus_def)

text \<open>
  Claim C10, as amended. A fresh client has commit time \<open>-1\<close> (an empty handler name
  and version 1). Its first \<^verbatim>\<open>SetCodeObject\<close> call with a code object whose commit
  time is at least 0 installs it when its load into Roma succeeds; when the load fails,
  the load's error is returned (the status of \<^verbatim>\<open>LoadCodeObj\<close>, the time-out error or
  the status of the response) and the client stays fresh. Every call keeps the commit
  time at \<open>-1\<close> or above, so after any sequence of calls a code object with a commit
  time of at most \<open>-1\<close> is not installed: the call returns OK and leaves the client as
  it was.
\<close>

theorem fresh_client_sentinel:
  "m_logical_commit_time UdfClientImpl_new = - 1
   \<and> (0 \<le> logical_commit_time cfg \<and> load_succeeds l cfg \<longrightarrow>
        SetCodeObject l cfg UdfClientImpl_new = (OkStatus, installed cfg UdfClientImpl_new))
   \<and> - 1 \<le> m_logical_commit_time (set_code_objects calls UdfClientImpl_new)
   \<and> (logical_commit_time cfg \<le> - 1 \<longrightarrow>
        SetCodeObject l cfg (set_code_objects calls UdfClientImpl_new)
          = (OkStatus, set_code_objects calls UdfClientImpl_new))
   \<and> UdfClientImpl_new = \<lparr>m_handler_name = [], m_logical_commit_time = - 1, m_version = 1\<rparr>
   \<and> (\<forall>r. r = l \<lparr>co_id = ''id'', co_version_num = version cfg mod 2 ^ 64,
                   co_js = js cfg, co_wasm = wasm cfg\<rparr>
          \<and> 0 \<le> logical_commit_time cfg \<longrightarrow>
        (code (load_status r) \<noteq> kOk \<longrightarrow>
           SetCodeObject l cfg UdfClientImpl_new = (load_status r, UdfClientImpl_new))
        \<and> (code (load_status r) = kOk \<and> \<not> notified r \<longrightarrow>
             SetCodeObject l cfg UdfClientImpl_new
               = (Status kInternal ''Timed out setting UDF code object.'', UdfClientImpl_new))
        \<and> (code (load_status r) = kOk \<and> notified r \<and> code (response_status r) \<noteq> kOk \<longrightarrow>
             SetCodeObject l cfg UdfClientImpl_new = (response_status r, UdfClientImpl_new))
        \<and> (code (load_status r) = kOk \<and> notified r \<and> code (response_status r) = kOk \<longrightarrow>
             SetCodeObject l cfg UdfClientImpl_new
               = (Status kOk [],
                  \<lparr>m_handler_name = udf_handler_name cfg,
                   m_logical_commit_time = logical_commit_time cfg,
                   m_version = version cfg\<rparr>)))
   \<and> (- 1 \<le> m_logical_commit_time c \<longrightarrow>
        - 1 \<le> m_logical_commit_time (snd (SetCodeObject l cfg c))
        \<and> (logical_commit_time cfg \<le> - 1 \<longrightarrow> SetCodeObject l cfg c = (Status kOk [], c)))
   \<and> set_code_objects [] c = c
   \<and> set_code_objects ((l, cfg) # calls) c
       = set_code_objects calls (snd (SetCodeObject l cfg c))"
proof -
  have fresh: "m_logical_commit_time UdfClientImpl_new = - 1"
    by (simp add: UdfClientImpl_new_def)
  have first: "0 \<le> logical_commit_time cfg \<and> load_succeeds l cfg \<longrightarrow>
        SetCodeObject l cfg UdfClientImpl_new = (OkStatus, installed cfg UdfClientImpl_new)"
    using SetCodeObject_unchanged_or_installed [of l cfg UdfClientImpl_new]
    by (auto simp add: SetCodeObject_def load_succeeds_def installed_def Let_def fresh)
  have inv: "- 1 \<le> m_logical_commit_time (set_code_objects calls UdfClientImpl_new)"
    using set_code_objects_lct_mono [of UdfClientImpl_new calls] by (simp add: fresh)
  have never: "logical_commit_time cfg \<le> - 1 \<longrightarrow>
        SetCodeObject l cfg (set_code_objects calls UdfClientImpl_new)
          = (OkStatus, set_code_objects calls UdfClientImpl_new)"
    using inv by (simp add: SetCodeObject_def)
  have new: "UdfClientImpl_new = \<lparr>m_handler_name = [], m_logical_commit_time = - 1, m_version = 1\<rparr>"
    by (simp add: UdfClientImpl_new_def)
  have paths: "\<forall>r. r = l \<lparr>co_id = ''id'', co_version_num = version cfg mod 2 ^ 64,
                   co_js = js cfg, co_wasm = wasm cfg\<rparr>
          \<and> 0 \<le> logical_commit_time cfg \<longrightarrow>
        (code (load_status r) \<noteq> kOk \<longrightarrow>
           SetCodeObject l cfg UdfClientImpl_new = (load_status r, UdfClientImpl_new))
        \<and> (code (load_status r) = kOk \<and> \<not> notified r \<longrightarrow>
             SetCodeObject l cfg UdfClientImpl_new
               = (Status kInternal ''Timed out setting UDF code object.'', UdfClientImpl_new))
        \<and> (code (load_status r) = kOk \<and> notified r \<and> code (response_status r) \<noteq> kOk \<longrightarrow>
             SetCodeObject l cfg UdfClientImpl_new = (response_status r, UdfClientImpl_new))
        \<and> (code (load_status r) = kOk \<and> notified r \<and> code (response_status r) = kOk \<longrightarrow>
             SetCodeObject l cfg UdfClientImpl_new
               = (Status kOk [],
                  \<lparr>m_handler_name = udf_handler_name cfg,
                   m_logical_commit_time = logical_commit_time cfg,
                   m_version = version cfg\<rparr>))"
    by (auto simp add: SetCodeObject_def Let_def ok_def OkStatus_def InternalError_def
          BuildCodeObject_def kCodeObjectId_def UdfClientImpl_new_def)
  have step: "- 1 \<le> m_logical_commit_time c \<longrightarrow>
        - 1 \<le> m_logical_commit_time (snd (SetCodeObject l cfg c))
        \<and> (logical_commit_time cfg \<le> - 1 \<longrightarrow> SetCodeObject l cfg c = (Status kOk [], c))"
    using SetCodeObject_lct_mono [of c l cfg] by (auto simp add: SetCodeObject_def OkStatus_def)
  have seq: "set_code_objects [] c = c
   \<and> set_code_objects ((l, cfg) # calls) c
       = set_code_objects calls (snd (SetCodeObject l cfg c))" by simp
  from fresh first inv never new paths step seq show ?thesis by blast
qed

text \<open>
  On a fresh client a code object with commit time 0 is installed when its load
  succeeds, one with commit time \<open>-1\<close> is not, with OK returned, and a rejected load
  returns its error and installs nothing.
\<close>

theorem fresh_client_sentinel_witness:
  "SetCodeObject load_ok
     \<lparr>js = ''A'', wasm = [], udf_handler_name = ''HandleA'', logical_commit_time = 0,
      version = 7\<rparr>
     UdfClientImpl_new
   = (OkStatus, \<lparr>m_handler_name = ''HandleA'', m_logical_commit_time = 0, m_version = 7\<rparr>)
   \<and> SetCodeObject load_ok
     \<lparr>js = ''Z'', wasm = [], udf_handler_name = ''HandleZ'', logical_commit_time = - 1,
      version = 7\<rparr>
     (set_code_objects [] UdfClientImpl_new)
   = (OkStatus, UdfClientImpl_new)
   \<and> SetCodeObject load_rejected
     \<lparr>js = ''A'', wasm = [], udf_handler_name = ''HandleA'', logical_commit_time = 0,
      version = 7\<rparr>
     UdfClientImpl_new
   = (InternalError ''Roma is not running'', UdfClientImpl_new)"
proof -
  let ?A = "\<lparr>js = ''A'', wasm = [], udf_handler_name = ''HandleA'', logical_commit_time = 0,
      version = 7\<rparr>"
  let ?Z = "\<lparr>js = ''Z'', wasm = [], udf_handler_name = ''HandleZ'', logical_commit_time = - 1,
      version = 7\<rparr>"
  have lct: "0 \<le> logical_commit_time ?A" by simp
  have ok: "load_succeeds load_ok ?A"
    by (simp add: load_succeeds_def load_ok_def ok_def OkStatus_def)
  note t = fresh_client_sentinel [where cfg = ?A and l = load_ok and calls = "[]"]
  from t lct ok have "SetCodeObject load_ok ?A UdfClientImpl_new
      = (OkStatus, installed ?A UdfClientImpl_new)" by blast
  then have first: "SetCodeObject load_ok ?A UdfClientImpl_new
      = (OkStatus, \<lparr>m_handler_name = ''HandleA'', m_logical_commit_time = 0, m_version = 7\<rparr>)"
    by (simp add: installed_def UdfClientImpl_new_def)
  have neg: "logical_commit_time ?Z \<le> - 1" by simp
  note u = fresh_client_sentinel [where cfg = ?Z and l = load_ok and calls = "[]"]
  from u neg have "SetCodeObject load_ok ?Z (set_code_objects [] UdfClientImpl_new)
          = (OkStatus, set_code_objects [] UdfClientImpl_new)" by blast
  then have second: "SetCodeObject load_ok ?Z (set_code_objects [] UdfClientImpl_new)
          = (OkStatus, UdfClientImpl_new)" by simp
  note v = fresh_client_sentinel [where cfg = ?A and l = load_rejected]
  have st: "code (load_status (load_rejected \<lparr>co_id = ''id'', co_version_num = version ?A mod 2 ^ 64,
                   co_js = js ?A, co_wasm = wasm ?A\<rparr>)) \<noteq> kOk"
    and ls: "load_status (load_rejected \<lparr>co_id = ''id'', co_version_num = version ?A mod 2 ^ 64,
                   co_js = js ?A, co_wasm = wasm ?A\<rparr>) = InternalError ''Roma is not running''"
    by (simp_all add: load_rejected_def InternalError_def)
  from v lct st have "SetCodeObject load_rejected ?A UdfClientImpl_new
      = (load_status (load_rejected \<lparr>co_id = ''id'', co_version_num = version ?A mod 2 ^ 64,
                   co_js = js ?A, co_wasm = wasm ?A\<rparr>), UdfClientImpl_new)" by blast
  then have third: "SetCodeObject load_rejected ?A UdfClientImpl_new
      = (InternalError ''Roma is not running'', UdfClientImpl_new)" by (simp only: ls)
  from first second third show ?thesis by blast
qed

text \<open>
  Claim C10 as stated fails: the first call on a fresh client does not install a code
  object with commit time 0 when Roma rejects the load; the error is returned and
  the client stays fresh.
\<close>

theorem fresh_client_counterexample:
  "0 \<le> logical_commit_time
         \<lparr>js = ''A'', wasm = [], udf_handler_name = ''HandleA'', logical_commit_time = 0,
          version = 1\<rparr>
   \<and> SetCodeObject load_rejected
        \<lparr>js = ''A'', wasm = [], udf_handler_name = ''HandleA'', logical_commit_time = 0,
         version = 1\<rparr>
        UdfClientImpl_new
      = (InternalError ''Roma is not running'', UdfClientImpl_new)
   \<and> m_handler_name UdfClientImpl_new \<noteq> ''HandleA''"
  by (simp add: SetCodeObject_def load_rejected_def UdfClientImpl_new_def ok_def
        InternalError_def)


section \<open>Properties of the shard ranges\<close>


























section \<open>Properties of collecting the shard results\<close>

lemma StrFormat_d_digit:
  assumes "0 \<le> x" "x < 10"
  shows "StrFormat_d x = [''0123456789'' ! nat x]"
proof -
  have "nat x < 10" using assms by simp
  then have "nat_digits (nat x) = [''0123456789'' ! nat x]"
    by (subst nat_digits.simps) simp
  then show ?thesis using assms by (simp add: StrFormat_d_def)
qed

lemma StrFormat_d_step:
  assumes "10 \<le> x"
  shows "StrFormat_d x = StrFormat_d (x div 10) @ StrFormat_d (x mod 10)"
proof -
  have "\<not> nat x < 10" using assms by simp
  then have "nat_digits (nat x)
      = nat_digits (nat x div 10) @ [''0123456789'' ! (nat x mod 10)]"
    by (subst nat_digits.simps) simp
  then have a: "StrFormat_d x = nat_digits (nat x div 10) @ [''0123456789'' ! (nat x mod 10)]"
    using assms by (simp add: StrFormat_d_def)
  have b: "StrFormat_d (x div 10) = nat_digits (nat x div 10)"
    using assms by (simp add: StrFormat_d_def nat_div_distrib)
  have "0 \<le> x mod 10" "x mod 10 < 10" by simp_all
  then have "StrFormat_d (x mod 10) = [''0123456789'' ! nat (x mod 10)]"
    by (rule StrFormat_d_digit)
  then have c: "StrFormat_d (x mod 10) = [''0123456789'' ! (nat x mod 10)]"
    using assms by (simp add: nat_mod_distrib)
  from a b c show ?thesis by simp
qed

lemma StrFormat_d_negative:
  "x < 0 \<Longrightarrow> StrFormat_d x = CHR ''-'' # StrFormat_d (- x)"
  by (simp add: StrFormat_d_def)

lemma check_shard_results_ok:
  "(\<forall>i<length rest. first_record_pos (rest ! i)
        \<le> next_shard_first_record_pos ((prev # rest) ! i))
   \<Longrightarrow> check_shard_results prev (map Inr rest) t = OkStatus"
proof (induction rest arbitrary: prev t)
  case Nil
  show ?case by simp
next
  case (Cons c rest)
  from Cons.prems have h0: "first_record_pos c \<le> next_shard_first_record_pos prev"
    by auto
  have hs: "\<forall>i<length rest. first_record_pos (rest ! i)
        \<le> next_shard_first_record_pos ((c # rest) ! i)"
  proof (intro allI impI)
    fix i assume "i < length rest"
    then have "Suc i < length (c # rest)" by simp
    with Cons.prems show "first_record_pos (rest ! i)
        \<le> next_shard_first_record_pos ((c # rest) ! i)" by fastforce
  qed
  from Cons.IH [OF hs] h0 show ?case by simp
qed

lemma check_shard_results_gap:
  "\<exists>i<length rest. next_shard_first_record_pos ((prev # rest) ! i)
        < first_record_pos (rest ! i)
   \<Longrightarrow> \<exists>i<length rest. next_shard_first_record_pos ((prev # rest) ! i)
            < first_record_pos (rest ! i)
        \<and> check_shard_results prev (map Inr rest) t
            = InternalError (skipped_message
                (next_shard_first_record_pos ((prev # rest) ! i))
                (first_record_pos (rest ! i)))"
proof (induction rest arbitrary: prev t)
  case Nil
  then show ?case by simp
next
  case (Cons c rest)
  show ?case
  proof (cases "next_shard_first_record_pos prev < first_record_pos c")
    case True
    then have "0 < length (c # rest) \<and> next_shard_first_record_pos ((prev # c # rest) ! 0)
            < first_record_pos ((c # rest) ! 0)
        \<and> check_shard_results prev (map Inr (c # rest)) t
            = InternalError (skipped_message
                (next_shard_first_record_pos ((prev # c # rest) ! 0))
                (first_record_pos ((c # rest) ! 0)))" by simp
    then show ?thesis by blast
  next
    case False
    from Cons.prems obtain i where i: "i < length (c # rest)"
      and v: "next_shard_first_record_pos ((prev # c # rest) ! i)
               < first_record_pos ((c # rest) ! i)" by blast
    from False v have "i \<noteq> 0" by (cases i) auto
    then obtain j where j: "i = Suc j" by (cases i) auto
    with i v have "\<exists>j<length rest. next_shard_first_record_pos ((c # rest) ! j)
        < first_record_pos (rest ! j)" by auto
    from Cons.IH [OF this, of "t + num_records_read c"]
    obtain k where k: "k < length rest"
      and kv: "next_shard_first_record_pos ((c # rest) ! k) < first_record_pos (rest ! k)"
      and kr: "check_shard_results c (map Inr rest) (t + num_records_read c)
            = InternalError (skipped_message
                (next_shard_first_record_pos ((c # rest) ! k))
                (first_record_pos (rest ! k)))" by blast
    have "Suc k < length (c # rest) \<and> next_shard_first_record_pos ((prev # c # rest) ! Suc k)
            < first_record_pos ((c # rest) ! Suc k)
        \<and> check_shard_results prev (map Inr (c # rest)) t
            = InternalError (skipped_message
                (next_shard_first_record_pos ((prev # c # rest) ! Suc k))
                (first_record_pos ((c # rest) ! Suc k)))"
      using k kv kr False by simp
    then show ?thesis by blast
  qed
qed

lemma check_shard_results_prefix_gap:
  "(\<forall>i<length oks. first_record_pos (oks ! i)
        \<le> next_shard_first_record_pos ((prev # oks) ! i))
   \<Longrightarrow> next_shard_first_record_pos (last (prev # oks)) < first_record_pos c
   \<Longrightarrow> check_shard_results prev (map Inr oks @ Inr c # rest) t
       = InternalError (skipped_message (next_shard_first_record_pos (last (prev # oks)))
           (first_record_pos c))"
proof (induction oks arbitrary: prev t)
  case Nil
  then show ?case by simp
next
  case (Cons d oks)
  from Cons.prems(1) have h0: "first_record_pos d \<le> next_shard_first_record_pos prev"
    by auto
  have hs: "\<forall>i<length oks. first_record_pos (oks ! i)
        \<le> next_shard_first_record_pos ((d # oks) ! i)"
  proof (intro allI impI)
    fix i assume "i < length oks"
    then have "Suc i < length (d # oks)" by simp
    with Cons.prems(1) show "first_record_pos (oks ! i)
        \<le> next_shard_first_record_pos ((d # oks) ! i)" by fastforce
  qed
  from Cons.prems(2) have g: "next_shard_first_record_pos (last (d # oks)) < first_record_pos c"
    by simp
  from Cons.IH [OF hs g] h0 show ?case by simp
qed

lemma check_shard_results_first_failure:
  "(\<forall>i<length oks. first_record_pos (oks ! i)
        \<le> next_shard_first_record_pos ((prev # oks) ! i))
   \<Longrightarrow> check_shard_results prev (map Inr oks @ Inl e # rest) t = e"
proof (induction oks arbitrary: prev t)
  case Nil
  show ?case by simp
next
  case (Cons c oks)
  from Cons.prems have h0: "first_record_pos c \<le> next_shard_first_record_pos prev"
    by auto
  have hs: "\<forall>i<length oks. first_record_pos (oks ! i)
        \<le> next_shard_first_record_pos ((c # oks) ! i)"
  proof (intro allI impI)
    fix i assume "i < length oks"
    then have "Suc i < length (c # oks)" by simp
    with Cons.prems show "first_record_pos (oks ! i)
        \<le> next_shard_first_record_pos ((c # oks) ! i)" by fastforce
  qed
  from Cons.IH [OF hs] h0 show ?case by simp
qed

lemma check_shard_results_failure:
  "Inl e \<in> set tasks \<Longrightarrow> (\<forall>st. Inl st \<in> set tasks \<longrightarrow> \<not> ok st)
   \<Longrightarrow> \<not> ok (check_shard_results prev tasks t)"
proof (induction tasks arbitrary: prev t)
  case Nil
  then show ?case by simp
next
  case (Cons a tasks)
  show ?case
  proof (cases a)
    case (Inl st)
    then show ?thesis using Cons.prems by simp
  next
    case (Inr c)
    then have "Inl e \<in> set tasks" and "\<forall>st. Inl st \<in> set tasks \<longrightarrow> \<not> ok st"
      using Cons.prems by auto
    from Cons.IH [OF this] show ?thesis
      by (simp add: Inr ok_def InternalError_def)
  qed
qed

lemma collect_shard_results_first_gap:
  assumes "oks \<noteq> []"
    and "\<forall>i. Suc i < length oks
          \<longrightarrow> first_record_pos (oks ! Suc i) \<le> next_shard_first_record_pos (oks ! i)"
    and "next_shard_first_record_pos (last oks) < first_record_pos c"
  shows "collect_shard_results (map Inr oks @ Inr c # rest)
       = InternalError (skipped_message (next_shard_first_record_pos (last oks))
           (first_record_pos c))"
proof -
  from assms(1) obtain r0 oks' where oks: "oks = r0 # oks'" by (cases oks) auto
  from assms(2) have "\<forall>i<length oks'. first_record_pos (oks' ! i)
        \<le> next_shard_first_record_pos ((r0 # oks') ! i)" using oks by auto
  from check_shard_results_prefix_gap [OF this] assms(3) show ?thesis using oks by simp
qed

lemma collect_shard_results_first_failure:
  assumes "\<forall>i. Suc i < length oks
          \<longrightarrow> first_record_pos (oks ! Suc i) \<le> next_shard_first_record_pos (oks ! i)"
  shows "collect_shard_results (map Inr oks @ Inl e # rest) = e"
proof (cases oks)
  case Nil
  then show ?thesis by simp
next
  case (Cons r0 oks')
  from assms have "\<forall>i<length oks'. first_record_pos (oks' ! i)
        \<le> next_shard_first_record_pos ((r0 # oks') ! i)" using Cons by auto
  from check_shard_results_first_failure [OF this] show ?thesis using Cons by simp
qed

lemma collect_shard_results_all_ok:
  assumes "\<forall>i. Suc i < length oks
          \<longrightarrow> first_record_pos (oks ! Suc i) \<le> next_shard_first_record_pos (oks ! i)"
  shows "collect_shard_results (map Inr oks) = OkStatus"
proof (cases oks)
  case Nil
  then show ?thesis by simp
next
  case (Cons r0 oks')
  from assms have "\<forall>i<length oks'. first_record_pos (oks' ! i)
        \<le> next_shard_first_record_pos ((r0 # oks') ! i)" using Cons by auto
  from check_shard_results_ok [OF this] show ?thesis using Cons by simp
qed

lemma collect_shard_results_all_succeeded:
  "((\<exists>i. Suc i < length results
         \<and> next_shard_first_record_pos (results ! i) < first_record_pos (results ! Suc i)
         \<and> collect_shard_results (map Inr results)
             = InternalError (skipped_message
                 (next_shard_first_record_pos (results ! i))
                 (first_record_pos (results ! Suc i))))
     \<longleftrightarrow> (\<exists>i. Suc i < length results
            \<and> \<not> first_record_pos (results ! Suc i)
                  \<le> next_shard_first_record_pos (results ! i)))
   \<and> ((\<forall>i. Suc i < length results
          \<longrightarrow> first_record_pos (results ! Suc i)
                \<le> next_shard_first_record_pos (results ! i))
        \<longrightarrow> collect_shard_results (map Inr results) = OkStatus)
   \<and> (\<not> ok (collect_shard_results (map Inr results))
        \<longrightarrow> (\<exists>i. Suc i < length results
               \<and> \<not> first_record_pos (results ! Suc i)
                     \<le> next_shard_first_record_pos (results ! i)))"
proof (cases results)
  case Nil
  then show ?thesis by (simp add: ok_def OkStatus_def)
next
  case (Cons r0 rest)
  have okc: "(\<forall>i. Suc i < length results
          \<longrightarrow> first_record_pos (results ! Suc i)
                \<le> next_shard_first_record_pos (results ! i))
        \<longrightarrow> collect_shard_results (map Inr results) = OkStatus"
  proof
    assume "\<forall>i. Suc i < length results
          \<longrightarrow> first_record_pos (results ! Suc i)
                \<le> next_shard_first_record_pos (results ! i)"
    then have "\<forall>i<length rest. first_record_pos (rest ! i)
        \<le> next_shard_first_record_pos ((r0 # rest) ! i)" using Cons by auto
    from check_shard_results_ok [OF this] show "collect_shard_results (map Inr results) = OkStatus"
      using Cons by simp
  qed
  have gap: "(\<exists>i. Suc i < length results
            \<and> \<not> first_record_pos (results ! Suc i)
                  \<le> next_shard_first_record_pos (results ! i))
     \<longrightarrow> (\<exists>i. Suc i < length results
         \<and> next_shard_first_record_pos (results ! i) < first_record_pos (results ! Suc i)
         \<and> collect_shard_results (map Inr results)
             = InternalError (skipped_message
                 (next_shard_first_record_pos (results ! i))
                 (first_record_pos (results ! Suc i))))"
  proof
    assume "\<exists>i. Suc i < length results
            \<and> \<not> first_record_pos (results ! Suc i)
                  \<le> next_shard_first_record_pos (results ! i)"
    then have "\<exists>i<length rest. next_shard_first_record_pos ((r0 # rest) ! i)
        < first_record_pos (rest ! i)" using Cons by auto
    from check_shard_results_gap [OF this, of "num_records_read r0"]
    show "\<exists>i. Suc i < length results
         \<and> next_shard_first_record_pos (results ! i) < first_record_pos (results ! Suc i)
         \<and> collect_shard_results (map Inr results)
             = InternalError (skipped_message
                 (next_shard_first_record_pos (results ! i))
                 (first_record_pos (results ! Suc i)))"
      using Cons by auto
  qed
  have nok: "\<not> ok (collect_shard_results (map Inr results))
        \<longrightarrow> (\<exists>i. Suc i < length results
               \<and> \<not> first_record_pos (results ! Suc i)
                     \<le> next_shard_first_record_pos (results ! i))"
    using okc by (auto simp add: ok_def OkStatus_def)
  from okc gap nok show ?thesis by (auto simp add: not_le)
qed

text \<open>
  Claim C2, as amended. The collecting half of \<^verbatim>\<open>ReadStreamRecords\<close> reads the
  outcomes of the shard tasks in shard order and returns at the first failed task or
  the first adjacent pair of results that violates
  \<open>prev.next_shard_first_record_pos \<ge> curr.first_record_pos\<close>. When every task
  succeeded, it fails with the internal error
  \<^verbatim>\<open>Skipped some records between byte=X and byte=Y.\<close>, X being the position after the
  previous shard and Y the first record position of the current one, if and only if
  some adjacent pair violates the inequality; it returns OK when no pair does, and fails
  in no other case. In general, after results without a gap, a result that opens a gap
  gives that error whatever the later tasks returned, and a failed task gives its own
  error whatever follows, also when a later pair has a gap. The last three conjuncts fix
  the decimal digits that the message prints.
\<close>

theorem collect_shard_results_gap:
  "((\<exists>i. Suc i < length results
         \<and> next_shard_first_record_pos (results ! i) < first_record_pos (results ! Suc i)
         \<and> collect_shard_results (map Inr results)
             = Status kInternal
                 (''Skipped some records between byte=''
                    @ StrFormat_d (next_shard_first_record_pos (results ! i))
                    @ '' and byte='' @ StrFormat_d (first_record_pos (results ! Suc i))
                    @ ''.''))
     \<longleftrightarrow> (\<exists>i. Suc i < length results
            \<and> \<not> first_record_pos (results ! Suc i)
                  \<le> next_shard_first_record_pos (results ! i)))
   \<and> ((\<forall>i. Suc i < length results
          \<longrightarrow> first_record_pos (results ! Suc i)
                \<le> next_shard_first_record_pos (results ! i))
        \<longrightarrow> collect_shard_results (map Inr results) = Status kOk [])
   \<and> (code (collect_shard_results (map Inr results)) \<noteq> kOk
        \<longrightarrow> (\<exists>i. Suc i < length results
               \<and> \<not> first_record_pos (results ! Suc i)
                     \<le> next_shard_first_record_pos (results ! i)))
   \<and> (oks \<noteq> []
        \<and> (\<forall>i. Suc i < length oks
              \<longrightarrow> first_record_pos (oks ! Suc i) \<le> next_shard_first_record_pos (oks ! i))
        \<and> next_shard_first_record_pos (last oks) < first_record_pos c
        \<longrightarrow> collect_shard_results (map Inr oks @ Inr c # rest)
             = Status kInternal
                 (''Skipped some records between byte=''
                    @ StrFormat_d (next_shard_first_record_pos (last oks))
                    @ '' and byte='' @ StrFormat_d (first_record_pos c) @ ''.''))
   \<and> ((\<forall>i. Suc i < length oks
          \<longrightarrow> first_record_pos (oks ! Suc i) \<le> next_shard_first_record_pos (oks ! i))
        \<longrightarrow> collect_shard_results (map Inr oks @ Inl e # rest) = e)
   \<and> (0 \<le> x \<and> x < 10 \<longrightarrow> StrFormat_d x = [''0123456789'' ! nat x])
   \<and> (10 \<le> x \<longrightarrow> StrFormat_d x = StrFormat_d (x div 10) @ StrFormat_d (x mod 10))
   \<and> (x < 0 \<longrightarrow> StrFormat_d x = CHR ''-'' # StrFormat_d (- x))"
proof -
  note a = collect_shard_results_all_succeeded [of results,
      unfolded InternalError_def skipped_message_def ok_def OkStatus_def]
  have g: "oks \<noteq> []
        \<and> (\<forall>i. Suc i < length oks
              \<longrightarrow> first_record_pos (oks ! Suc i) \<le> next_shard_first_record_pos (oks ! i))
        \<and> next_shard_first_record_pos (last oks) < first_record_pos c
        \<longrightarrow> collect_shard_results (map Inr oks @ Inr c # rest)
             = Status kInternal
                 (''Skipped some records between byte=''
                    @ StrFormat_d (next_shard_first_record_pos (last oks))
                    @ '' and byte='' @ StrFormat_d (first_record_pos c) @ ''.'')"
    using collect_shard_results_first_gap [of oks c rest]
    by (simp add: InternalError_def skipped_message_def)
  have f: "(\<forall>i. Suc i < length oks
          \<longrightarrow> first_record_pos (oks ! Suc i) \<le> next_shard_first_record_pos (oks ! i))
        \<longrightarrow> collect_shard_results (map Inr oks @ Inl e # rest) = e"
    using collect_shard_results_first_failure [of oks e rest] by blast
  have d: "(0 \<le> x \<and> x < 10 \<longrightarrow> StrFormat_d x = [''0123456789'' ! nat x])
   \<and> (10 \<le> x \<longrightarrow> StrFormat_d x = StrFormat_d (x div 10) @ StrFormat_d (x mod 10))
   \<and> (x < 0 \<longrightarrow> StrFormat_d x = CHR ''-'' # StrFormat_d (- x))"
    using StrFormat_d_digit [of x] StrFormat_d_step [of x] StrFormat_d_negative [of x]
    by blast
  from a g f d show ?thesis by blast
qed

text \<open>
  Scenario S5 of the specification: shard 0 reports the next position 1000 and shard 1
  its first record at 1100. With the first record at 1000 the read succeeds.
\<close>

theorem collect_shard_results_gap_witness:
  "collect_shard_results
     [Inr \<lparr>first_record_pos = 0, next_shard_first_record_pos = 1000, num_records_read = 4\<rparr>,
      Inr \<lparr>first_record_pos = 1100, next_shard_first_record_pos = 2000, num_records_read = 3\<rparr>]
     = InternalError ''Skipped some records between byte=1000 and byte=1100.''
   \<and> collect_shard_results
     [Inr \<lparr>first_record_pos = 0, next_shard_first_record_pos = 1000, num_records_read = 4\<rparr>,
      Inr \<lparr>first_record_pos = 1000, next_shard_first_record_pos = 2000, num_records_read = 3\<rparr>]
     = OkStatus"
  using collect_shard_results_gap [where results =
     "[\<lparr>first_record_pos = 0, next_shard_first_record_pos = 1000, num_records_read = 4\<rparr>,
      \<lparr>first_record_pos = 1100, next_shard_first_record_pos = 2000, num_records_read = 3\<rparr>]"
     and oks = "[]" and x = 0]
    collect_shard_results_gap [where results =
     "[\<lparr>first_record_pos = 0, next_shard_first_record_pos = 1000, num_records_read = 4\<rparr>,
      \<lparr>first_record_pos = 1000, next_shard_first_record_pos = 2000, num_records_read = 3\<rparr>]"
     and oks = "[]" and x = 0]
  by (simp add: skipped_message_def StrFormat_d_def nat_digits.simps)

text \<open>
  Claim C2 as stated fails when a shard task failed: the second and the third shard
  have a gap between them, but the first task failed, and the read returns that task's
  error, not the error of the gap.
\<close>

theorem failed_task_before_gap_counterexample:
  "next_shard_first_record_pos
       \<lparr>first_record_pos = 0, next_shard_first_record_pos = 1000, num_records_read = 4\<rparr>
     < first_record_pos
       \<lparr>first_record_pos = 1100, next_shard_first_record_pos = 2000, num_records_read = 3\<rparr>
   \<and> collect_shard_results
     [Inl (Status kDataLoss ''corrupted chunk''),
      Inr \<lparr>first_record_pos = 0, next_shard_first_record_pos = 1000, num_records_read = 4\<rparr>,
      Inr \<lparr>first_record_pos = 1100, next_shard_first_record_pos = 2000, num_records_read = 3\<rparr>]
     = Status kDataLoss ''corrupted chunk''
   \<and> Status kDataLoss ''corrupted chunk''
     \<noteq> InternalError ''Skipped some records between byte=1000 and byte=1100.''"
  by (simp add: InternalError_def)


section \<open>Properties of the record callbacks and of failing shard tasks\<close>

lemma read_records_loop_seen:
  "snd (read_records_loop callback recs overall seen) = seen @ map fst recs"
proof (induction recs arbitrary: overall seen)
  case Nil
  show ?case by simp
next
  case (Cons a recs)
  obtain r p where a: "a = (r, p)" by (cases a)
  show ?case by (simp add: a Cons.IH)
qed

text \<open>
What a shard's loop hands back apart from the callback's status.
\<close>

lemma shard_records_loop_callback:
  "(case shard_records_loop callback e fin p recs n overall seen of
      (st, np, k, ov, s) \<Rightarrow> (st, np, k, s))
   = (case shard_records_loop callback' e fin p recs n overall' seen of
      (st, np, k, ov, s) \<Rightarrow> (st, np, k, s))"
proof (induction recs arbitrary: p n overall overall' seen)
  case Nil
  show ?case by simp
next
  case (Cons a recs)
  obtain r q where a: "a = (r, q)" by (cases a)
  show ?case
  proof (cases "p \<le> e")
    case True
    then show ?thesis using Cons.IH by (simp add: a)
  next
    case False
    then show ?thesis by (simp add: a)
  qed
qed

lemma ReadShardRecords_callback:
  "fst (ReadShardRecords callback shard rr) = fst (ReadShardRecords callback' shard rr)
   \<and> fst (snd (ReadShardRecords callback shard rr))
       = fst (snd (ReadShardRecords callback' shard rr))"
proof (cases "seek_ok rr")
  case False
  then show ?thesis by (simp add: ReadShardRecords_def)
next
  case True
  obtain st np k ov s where l: "shard_records_loop callback (end_pos shard)
      (final_status (reader rr)) (seek_pos rr) (records (reader rr)) 0 OkStatus []
      = (st, np, k, ov, s)" by (metis prod_cases5)
  obtain st' np' k' ov' s' where l': "shard_records_loop callback' (end_pos shard)
      (final_status (reader rr)) (seek_pos rr) (records (reader rr)) 0 OkStatus []
      = (st', np', k', ov', s')" by (metis prod_cases5)
  from shard_records_loop_callback [of callback "end_pos shard" "final_status (reader rr)"
      "seek_pos rr" "records (reader rr)" 0 OkStatus "[]" callback' OkStatus]
  have "(st, np, k, s) = (st', np', k', s')" by (simp add: l l')
  then show ?thesis using True by (simp add: ReadShardRecords_def l l')
qed

lemma ReadStreamRecords_shards_callback:
  "fst (ReadStreamRecords_shards callback reader_at shards)
     = fst (ReadStreamRecords_shards callback' reader_at shards)
   \<and> fst (snd (ReadStreamRecords_shards callback reader_at shards))
     = fst (snd (ReadStreamRecords_shards callback' reader_at shards))"
proof (cases shards)
  case (Inl st)
  then show ?thesis by (simp add: ReadStreamRecords_shards_def)
next
  case (Inr ranges)
  have a: "map (\<lambda>shard. fst (ReadShardRecords callback shard (reader_at (start_pos shard)))) ranges
      = map (\<lambda>shard. fst (ReadShardRecords callback' shard (reader_at (start_pos shard)))) ranges"
    by (rule map_cong) (simp_all add: ReadShardRecords_callback [of callback _ _ callback'])
  have b: "map (\<lambda>shard. fst (snd (ReadShardRecords callback shard (reader_at (start_pos shard))))) ranges
      = map (\<lambda>shard. fst (snd (ReadShardRecords callback' shard (reader_at (start_pos shard))))) ranges"
    by (rule map_cong) (simp_all add: ReadShardRecords_callback [of callback _ _ callback'])
  show ?thesis by (simp add: ReadStreamRecords_shards_def Inr Let_def comp_def a b)
qed

lemma callback_independence:
  "returned (RiegeliStreamReader_ReadStreamRecords callback rd) = final_status rd
   \<and> delivered (RiegeliStreamReader_ReadStreamRecords callback rd) = map fst (records rd)
   \<and> fst (ReadStreamRecords_shards callback reader_at shards)
       = fst (ReadStreamRecords_shards callback' reader_at shards)
   \<and> fst (snd (ReadStreamRecords_shards callback reader_at shards))
       = fst (snd (ReadStreamRecords_shards callback' reader_at shards))
   \<and> map_option (\<lambda>r. (fst r, fst (snd r)))
       (ConcurrentStreamRecordReader_ReadStreamRecords callback reader_at tellg w m)
       = map_option (\<lambda>r. (fst r, fst (snd r)))
           (ConcurrentStreamRecordReader_ReadStreamRecords callback' reader_at tellg w m)
   \<and> ((\<forall>i. Suc i < length oks
          \<longrightarrow> first_record_pos (oks ! Suc i) \<le> next_shard_first_record_pos (oks ! i))
        \<longrightarrow> collect_shard_results (map Inr oks @ Inl e # rest) = e)
   \<and> (Inl e \<in> set tasks \<and> (\<forall>st. Inl st \<in> set tasks \<longrightarrow> \<not> ok st)
        \<longrightarrow> \<not> ok (collect_shard_results tasks))"
proof -
  obtain ov s where l: "read_records_loop callback (records rd) OkStatus [] = (ov, s)"
    by (cases "read_records_loop callback (records rd) OkStatus []")
  have "s = [] @ map fst (records rd)"
    using read_records_loop_seen [of callback "records rd" OkStatus "[]"] by (simp add: l)
  then have seq: "returned (RiegeliStreamReader_ReadStreamRecords callback rd) = final_status rd
   \<and> delivered (RiegeliStreamReader_ReadStreamRecords callback rd) = map fst (records rd)"
    by (simp add: RiegeliStreamReader_ReadStreamRecords_def l)
  note conc = ReadStreamRecords_shards_callback [of callback reader_at _ callback']
  have top: "map_option (\<lambda>r. (fst r, fst (snd r)))
       (ConcurrentStreamRecordReader_ReadStreamRecords callback reader_at tellg w m)
       = map_option (\<lambda>r. (fst r, fst (snd r)))
           (ConcurrentStreamRecordReader_ReadStreamRecords callback' reader_at tellg w m)"
    using conc by (cases "BuildShards tellg w m")
      (simp_all add: ConcurrentStreamRecordReader_ReadStreamRecords_def)
  have first: "(\<forall>i. Suc i < length oks
          \<longrightarrow> first_record_pos (oks ! Suc i) \<le> next_shard_first_record_pos (oks ! i))
        \<longrightarrow> collect_shard_results (map Inr oks @ Inl e # rest) = e"
  proof
    assume h: "\<forall>i. Suc i < length oks
          \<longrightarrow> first_record_pos (oks ! Suc i) \<le> next_shard_first_record_pos (oks ! i)"
    show "collect_shard_results (map Inr oks @ Inl e # rest) = e"
    proof (cases oks)
      case Nil
      then show ?thesis by simp
    next
      case (Cons r0 oks')
      from h have "\<forall>i<length oks'. first_record_pos (oks' ! i)
        \<le> next_shard_first_record_pos ((r0 # oks') ! i)" using Cons by auto
      from check_shard_results_first_failure [OF this] show ?thesis using Cons by simp
    qed
  qed
  have any: "Inl e \<in> set tasks \<and> (\<forall>st. Inl st \<in> set tasks \<longrightarrow> \<not> ok st)
        \<longrightarrow> \<not> ok (collect_shard_results tasks)"
  proof
    assume h: "Inl e \<in> set tasks \<and> (\<forall>st. Inl st \<in> set tasks \<longrightarrow> \<not> ok st)"
    show "\<not> ok (collect_shard_results tasks)"
    proof (cases tasks)
      case Nil
      then show ?thesis using h by simp
    next
      case (Cons a tasks')
      show ?thesis
      proof (cases a)
        case (Inl st)
        then show ?thesis using h Cons by simp
      next
        case (Inr c)
        then have "Inl e \<in> set tasks'" and "\<forall>st. Inl st \<in> set tasks' \<longrightarrow> \<not> ok st"
          using h Cons by auto
        from check_shard_results_failure [OF this] show ?thesis using Cons Inr by simp
      qed
    qed
  qed
  from seq conc top first any show ?thesis by blast
qed

text \<open>
  The reading loops as functions of the reader: the records read in a shard are the
  leading ones whose position before the read is inside the shard, and the status that
  is logged is the first error among the callback's answers.
\<close>

lemma foldl_Update_not_ok: "\<not> ok ov \<Longrightarrow> foldl Update ov xs = ov"
  by (induction xs) (simp_all add: Update_def)

lemma log_if_error_foldl_Update:
  "ok ov \<Longrightarrow> log_if_error (foldl Update ov xs) = List.find (\<lambda>s. \<not> ok s) xs"
proof (induction xs arbitrary: ov)
  case Nil
  then show ?case by (simp add: log_if_error_def)
next
  case (Cons x xs)
  show ?case
  proof (cases "ok x")
    case True
    have "Update ov x = x" using Cons.prems by (simp add: Update_def)
    with True Cons.IH [of x] show ?thesis by simp
  next
    case False
    have u: "Update ov x = x" using Cons.prems by (simp add: Update_def)
    from False have "foldl Update x xs = x" by (rule foldl_Update_not_ok)
    with False u show ?thesis by (simp add: log_if_error_def)
  qed
qed

lemma read_records_loop_spec:
  "read_records_loop callback recs overall seen
     = (foldl Update overall (map (\<lambda>r. callback (fst r)) recs), seen @ map fst recs)"
proof (induction recs arbitrary: overall seen)
  case Nil
  show ?case by simp
next
  case (Cons a recs)
  obtain r p where a: "a = (r, p)" by (cases a)
  show ?case by (simp add: a Cons.IH)
qed

lemma shard_records_loop_spec:
  "shard_records_loop callback e fin p recs n overall seen =
     (let ps = p # map snd recs;
          k = length (takeWhile (\<lambda>q. q \<le> e) (butlast ps))
      in (if k = length recs \<and> ps ! k \<le> e then fin else OkStatus,
          ps ! k, n + int k,
          foldl Update overall (map (\<lambda>r. callback (fst r)) (take k recs)),
          seen @ map fst (take k recs)))"
proof (induction recs arbitrary: p n overall seen)
  case Nil
  show ?case by simp
next
  case (Cons a recs)
  obtain r q where a: "a = (r, q)" by (cases a)
  show ?case
  proof (cases "p \<le> e")
    case True
    then show ?thesis by (simp add: a Cons.IH Let_def)
  next
    case False
    then show ?thesis by (simp add: a Let_def)
  qed
qed

lemma ReadShardRecords_spec:
  "ReadShardRecords callback shard rr =
     (if \<not> seek_ok rr then (Inl (final_status (reader rr)), [], None)
      else
        let ps = seek_pos rr # map snd (records (reader rr));
            k = length (takeWhile (\<lambda>q. q \<le> end_pos shard) (butlast ps))
        in (if k = length (records (reader rr)) \<and> ps ! k \<le> end_pos shard
               \<and> code (final_status (reader rr)) \<noteq> kOk
            then Inl (final_status (reader rr))
            else Inr \<lparr>first_record_pos = seek_pos rr,
                      next_shard_first_record_pos = ps ! k,
                      num_records_read = int k\<rparr>,
            map fst (take k (records (reader rr))),
            List.find (\<lambda>s. code s \<noteq> kOk)
              (map (\<lambda>r. callback (fst r)) (take k (records (reader rr))))))"
proof (cases "seek_ok rr")
  case False
  then show ?thesis by (simp add: ReadShardRecords_def)
next
  case True
  define ps where "ps = seek_pos rr # map snd (records (reader rr))"
  define k where "k = length (takeWhile (\<lambda>q. q \<le> end_pos shard) (butlast ps))"
  define cbs where "cbs = map (\<lambda>r. callback (fst r)) (take k (records (reader rr)))"
  have okk: "ok OkStatus" by (simp add: ok_def OkStatus_def)
  have f: "(\<lambda>s. \<not> ok s) = (\<lambda>s. code s \<noteq> kOk)" by (simp add: ok_def)
  have co: "code OkStatus = kOk" by (simp add: OkStatus_def)
  have lg: "log_if_error (foldl Update OkStatus cbs) = List.find (\<lambda>s. code s \<noteq> kOk) cbs"
    using log_if_error_foldl_Update [OF okk, of cbs] by (simp only: f)
  have loop: "shard_records_loop callback (end_pos shard) (final_status (reader rr))
      (seek_pos rr) (records (reader rr)) 0 OkStatus []
    = (if k = length (records (reader rr)) \<and> ps ! k \<le> end_pos shard
       then final_status (reader rr) else OkStatus,
       ps ! k, int k, foldl Update OkStatus cbs, map fst (take k (records (reader rr))))"
    unfolding shard_records_loop_spec Let_def ps_def [symmetric] k_def [symmetric]
      cbs_def [symmetric] by simp
  have "ReadShardRecords callback shard rr =
     (if k = length (records (reader rr)) \<and> ps ! k \<le> end_pos shard
               \<and> code (final_status (reader rr)) \<noteq> kOk
            then Inl (final_status (reader rr))
            else Inr \<lparr>first_record_pos = seek_pos rr,
                      next_shard_first_record_pos = ps ! k,
                      num_records_read = int k\<rparr>,
            map fst (take k (records (reader rr))),
            List.find (\<lambda>s. code s \<noteq> kOk) cbs)"
    using True co by (auto simp add: ReadShardRecords_def loop lg ok_def)
  then show ?thesis
    using True unfolding Let_def ps_def [symmetric] k_def [symmetric] cbs_def [symmetric]
    by (simp only: if_False simp_thms)
qed

lemma RiegeliStreamReader_ReadStreamRecords_spec:
  "RiegeliStreamReader_ReadStreamRecords callback rd
     = \<lparr>returned = final_status rd, delivered = map fst (records rd),
        logged = List.find (\<lambda>s. code s \<noteq> kOk)
                   (map (\<lambda>r. callback (fst r)) (records rd))\<rparr>"
proof -
  have okk: "ok OkStatus" by (simp add: ok_def OkStatus_def)
  have f: "(\<lambda>s. \<not> ok s) = (\<lambda>s. code s \<noteq> kOk)" by (simp add: ok_def)
  show ?thesis
    using log_if_error_foldl_Update [OF okk]
    by (simp add: RiegeliStreamReader_ReadStreamRecords_def read_records_loop_spec f)
qed

text \<open>
  Claim C6, as amended. A status returned by the record callback changes neither the
  status that \<^verbatim>\<open>ReadStreamRecords\<close> returns nor the records that are delivered, for
  the sequential reader (which returns the reader's status and delivers every record)
  and for the concurrent reader (whose status and deliveries are the same for any two
  callbacks); the callback's first error only reaches the log. A shard task delivers the
  leading records whose position before the read is inside the shard, and fails with the
  reader's status when the seek fails or the reader ends in an error inside the shard.
  The status of the concurrent read is collected from the outcomes of the shard tasks in
  shard order. A failing shard task makes the read fail: after results without a gap the
  failed task's own error is returned; when a gap opens before it, the error of the gap,
  \<^verbatim>\<open>Skipped some records between byte=X and byte=Y.\<close>, is returned instead; results
  without a gap and without a failed task give OK.
\<close>

theorem callback_errors_are_only_logged:
  "returned (RiegeliStreamReader_ReadStreamRecords callback rd) = final_status rd
   \<and> delivered (RiegeliStreamReader_ReadStreamRecords callback rd) = map fst (records rd)
   \<and> fst (ReadStreamRecords_shards callback reader_at shards)
       = fst (ReadStreamRecords_shards callback' reader_at shards)
   \<and> fst (snd (ReadStreamRecords_shards callback reader_at shards))
       = fst (snd (ReadStreamRecords_shards callback' reader_at shards))
   \<and> map_option (\<lambda>r. (fst r, fst (snd r)))
       (ConcurrentStreamRecordReader_ReadStreamRecords callback reader_at tellg w m)
       = map_option (\<lambda>r. (fst r, fst (snd r)))
           (ConcurrentStreamRecordReader_ReadStreamRecords callback' reader_at tellg w m)
   \<and> ((\<forall>i. Suc i < length oks
          \<longrightarrow> first_record_pos (oks ! Suc i) \<le> next_shard_first_record_pos (oks ! i))
        \<longrightarrow> collect_shard_results (map Inr oks @ Inl e # rest) = e)
   \<and> (Inl e \<in> set tasks \<and> (\<forall>st. Inl st \<in> set tasks \<longrightarrow> \<not> ok st)
        \<longrightarrow> \<not> ok (collect_shard_results tasks))
   \<and> (oks \<noteq> []
        \<and> (\<forall>i. Suc i < length oks
              \<longrightarrow> first_record_pos (oks ! Suc i) \<le> next_shard_first_record_pos (oks ! i))
        \<and> next_shard_first_record_pos (last oks) < first_record_pos c
        \<longrightarrow> collect_shard_results (map Inr oks @ Inr c # rest)
             = Status kInternal
                 (''Skipped some records between byte=''
                    @ StrFormat_d (next_shard_first_record_pos (last oks))
                    @ '' and byte='' @ StrFormat_d (first_record_pos c) @ ''.''))
   \<and> ((\<forall>i. Suc i < length oks
          \<longrightarrow> first_record_pos (oks ! Suc i) \<le> next_shard_first_record_pos (oks ! i))
        \<longrightarrow> collect_shard_results (map Inr oks) = Status kOk [])
   \<and> fst (ReadStreamRecords_shards callback reader_at (Inr ranges))
       = collect_shard_results
           (map (\<lambda>shard. fst (ReadShardRecords callback shard (reader_at (start_pos shard))))
              ranges)
   \<and> ReadStreamRecords_shards callback reader_at (Inl st) = (st, [], [])
   \<and> RiegeliStreamReader_ReadStreamRecords callback rd
       = \<lparr>returned = final_status rd, delivered = map fst (records rd),
          logged = List.find (\<lambda>s. code s \<noteq> kOk)
                     (map (\<lambda>r. callback (fst r)) (records rd))\<rparr>
   \<and> ReadShardRecords callback shard rr =
       (if \<not> seek_ok rr then (Inl (final_status (reader rr)), [], None)
        else
          let ps = seek_pos rr # map snd (records (reader rr));
              k = length (takeWhile (\<lambda>q. q \<le> end_pos shard) (butlast ps))
          in (if k = length (records (reader rr)) \<and> ps ! k \<le> end_pos shard
                 \<and> code (final_status (reader rr)) \<noteq> kOk
              then Inl (final_status (reader rr))
              else Inr \<lparr>first_record_pos = seek_pos rr,
                        next_shard_first_record_pos = ps ! k,
                        num_records_read = int k\<rparr>,
              map fst (take k (records (reader rr))),
              List.find (\<lambda>s. code s \<noteq> kOk)
                (map (\<lambda>r. callback (fst r)) (take k (records (reader rr))))))
   \<and> fst (snd (ReadStreamRecords_shards callback reader_at (Inr ranges)))
       = map (\<lambda>shard. fst (snd (ReadShardRecords callback shard (reader_at (start_pos shard)))))
           ranges
   \<and> snd (snd (ReadStreamRecords_shards callback reader_at (Inr ranges)))
       = map (\<lambda>shard. snd (snd (ReadShardRecords callback shard (reader_at (start_pos shard)))))
           ranges
   \<and> ConcurrentStreamRecordReader_ReadStreamRecords callback reader_at tellg w m
       = map_option (ReadStreamRecords_shards callback reader_at) (BuildShards tellg w m)"
proof -
  note a = callback_independence [of callback rd reader_at shards callback' tellg w m oks e
      rest tasks]
  have g: "oks \<noteq> []
        \<and> (\<forall>i. Suc i < length oks
              \<longrightarrow> first_record_pos (oks ! Suc i) \<le> next_shard_first_record_pos (oks ! i))
        \<and> next_shard_first_record_pos (last oks) < first_record_pos c
        \<longrightarrow> collect_shard_results (map Inr oks @ Inr c # rest)
             = Status kInternal
                 (''Skipped some records between byte=''
                    @ StrFormat_d (next_shard_first_record_pos (last oks))
                    @ '' and byte='' @ StrFormat_d (first_record_pos c) @ ''.'')"
    using collect_shard_results_first_gap [of oks c rest]
    by (simp add: InternalError_def skipped_message_def)
  have k: "(\<forall>i. Suc i < length oks
          \<longrightarrow> first_record_pos (oks ! Suc i) \<le> next_shard_first_record_pos (oks ! i))
        \<longrightarrow> collect_shard_results (map Inr oks) = Status kOk []"
    using collect_shard_results_all_ok [of oks] by (simp add: OkStatus_def)
  have s: "fst (ReadStreamRecords_shards callback reader_at (Inr ranges))
       = collect_shard_results
           (map (\<lambda>shard. fst (ReadShardRecords callback shard (reader_at (start_pos shard))))
              ranges)
   \<and> ReadStreamRecords_shards callback reader_at (Inl st) = (st, [], [])"
    by (simp add: ReadStreamRecords_shards_def Let_def comp_def)
  note q = RiegeliStreamReader_ReadStreamRecords_spec [of callback rd]
  note p = ReadShardRecords_spec [of callback shard rr]
  have d: "fst (snd (ReadStreamRecords_shards callback reader_at (Inr ranges)))
       = map (\<lambda>shard. fst (snd (ReadShardRecords callback shard (reader_at (start_pos shard)))))
           ranges"
    by (simp add: ReadStreamRecords_shards_def Let_def comp_def)
  have d2: "snd (snd (ReadStreamRecords_shards callback reader_at (Inr ranges)))
       = map (\<lambda>shard. snd (snd (ReadShardRecords callback shard (reader_at (start_pos shard)))))
           ranges"
    by (simp add: ReadStreamRecords_shards_def Let_def comp_def)
  have top: "ConcurrentStreamRecordReader_ReadStreamRecords callback reader_at tellg w m
       = map_option (ReadStreamRecords_shards callback reader_at) (BuildShards tellg w m)"
    by (simp add: ConcurrentStreamRecordReader_ReadStreamRecords_def)
  from a g k s q p d d2 top show ?thesis by blast
qed

text \<open>
  A callback that fails on the second of three records: all three are delivered, the
  read returns OK and the error is logged, in the sequential reader and in two shards.
  A failing second task after a first one without a gap fails the read with its error.
\<close>

theorem callback_errors_are_only_logged_witness:
  "RiegeliStreamReader_ReadStreamRecords failing_callback example_reader
     = \<lparr>returned = OkStatus, delivered = [''a'', ''b'', ''c''],
        logged = Some (InvalidArgumentError ''bad record'')\<rparr>
   \<and> ReadStreamRecords_shards failing_callback example_reader_at
        (Inr [\<lparr>start_pos = 0, end_pos = 15\<rparr>, \<lparr>start_pos = 16, end_pos = 30\<rparr>])
     = (OkStatus, [[''a'', ''b''], [''c'']], [Some (InvalidArgumentError ''bad record''), None])
   \<and> collect_shard_results
        [Inr \<lparr>first_record_pos = 0, next_shard_first_record_pos = 20, num_records_read = 2\<rparr>,
         Inl (Status kDataLoss ''corrupted chunk'')]
     = Status kDataLoss ''corrupted chunk''"
  using callback_errors_are_only_logged [of failing_callback example_reader example_reader_at
      "Inr [\<lparr>start_pos = 0, end_pos = 15\<rparr>, \<lparr>start_pos = 16, end_pos = 30\<rparr>]"
      "\<lambda>r. OkStatus" 30 2 1
      "[\<lparr>first_record_pos = 0, next_shard_first_record_pos = 20, num_records_read = 2\<rparr>]"
      "Status kDataLoss ''corrupted chunk''" "[]"
      "[Inr \<lparr>first_record_pos = 0, next_shard_first_record_pos = 20, num_records_read = 2\<rparr>,
         Inl (Status kDataLoss ''corrupted chunk'')]"]
  by (simp add: RiegeliStreamReader_ReadStreamRecords_def example_reader_def
        failing_callback_def Update_def ok_def OkStatus_def InvalidArgumentError_def
        log_if_error_def ReadStreamRecords_shards_def ReadShardRecords_def
        example_reader_at_def)

text \<open>
  Claim C6 as stated fails in its last part: the third shard task fails with a data
  loss error, but the read returns the error of the gap between the first two shards,
  which is found first.
\<close>

theorem shard_failure_counterexample:
  "collect_shard_results
     [Inr \<lparr>first_record_pos = 0, next_shard_first_record_pos = 1000, num_records_read = 4\<rparr>,
      Inr \<lparr>first_record_pos = 1100, next_shard_first_record_pos = 2000, num_records_read = 3\<rparr>,
      Inl (Status kDataLoss ''corrupted chunk'')]
     = InternalError ''Skipped some records between byte=1000 and byte=1100.''
   \<and> InternalError ''Skipped some records between byte=1000 and byte=1100.''
     \<noteq> Status kDataLoss ''corrupted chunk''"
  by (simp add: skipped_message_def StrFormat_d_def nat_digits.simps InternalError_def)


section \<open>Properties of the argument serialization\<close>

lemma serialize_arguments_ok:
  "map (\<lambda>a. M (if tags a = [] then ValueMessage (data a) else ArgumentMessage a)) args
     = map Inr jsons
   \<Longrightarrow> serialize_arguments M args acc = Inr (acc @ jsons)"
proof (induction args arbitrary: acc jsons)
  case Nil
  then show ?case by simp
next
  case (Cons a args)
  from Cons.prems obtain j jsons' where jsons: "jsons = j # jsons'"
    and j: "M (if tags a = [] then ValueMessage (data a) else ArgumentMessage a) = Inr j"
    and rest: "map (\<lambda>a. M (if tags a = [] then ValueMessage (data a) else ArgumentMessage a)) args
     = map Inr jsons'"
    by (cases jsons) auto
  from Cons.IH [OF rest, of "acc @ [j]"] j show ?case by (simp add: jsons Let_def)
qed

lemma serialize_arguments_Inr:
  "serialize_arguments M args acc = Inr xs
   \<Longrightarrow> \<exists>jsons. xs = acc @ jsons
         \<and> map (\<lambda>a. M (if tags a = [] then ValueMessage (data a) else ArgumentMessage a)) args
             = map Inr jsons"
proof (induction args arbitrary: acc)
  case Nil
  then show ?case by simp
next
  case (Cons a args)
  show ?case
  proof (cases "M (if tags a = [] then ValueMessage (data a) else ArgumentMessage a)")
    case (Inl st)
    with Cons.prems show ?thesis by (simp add: Let_def)
  next
    case (Inr j)
    with Cons.prems have "serialize_arguments M args (acc @ [j]) = Inr xs"
      by (simp add: Let_def)
    from Cons.IH [OF this] obtain jsons where "xs = (acc @ [j]) @ jsons"
      and "map (\<lambda>a. M (if tags a = [] then ValueMessage (data a) else ArgumentMessage a)) args
             = map Inr jsons" by blast
    then have "xs = acc @ (j # jsons)
         \<and> map (\<lambda>a. M (if tags a = [] then ValueMessage (data a) else ArgumentMessage a)) (a # args)
             = map Inr (j # jsons)" using Inr by simp
    then show ?thesis by blast
  qed
qed

text \<open>
  Claim C4. \<^verbatim>\<open>ExecuteCode\<close> serializes the metadata with the interface version set
  to 1, whatever version it arrived with, and passes it first; an argument whose tag list
  is empty is serialized from its data field alone and an argument with at least one tag
  from the whole argument. When the serializer answers for all of them, the strings
  handed to Roma are the metadata's JSON followed by the arguments' JSON in
  order, and a result of \<^verbatim>\<open>ExecuteCode\<close> is always obtained from such strings.
\<close>

theorem ExecuteCode_serialization:
  "ExecuteCode M Execute c (md\<lparr>udf_interface_version := v\<rparr>) args = ExecuteCode M Execute c md args
   \<and> (M (MetadataMessage (md\<lparr>udf_interface_version := 1\<rparr>)) = Inr jm
        \<and> map (\<lambda>a. M (if tags a = [] then ValueMessage (data a) else ArgumentMessage a)) args
            = map Inr jsons
      \<longrightarrow> ExecuteCode M Execute c md args = ExecuteCode_keys Execute c (jm # jsons)
          \<and> ir_input (BuildInvocationRequest c (jm # jsons)) = jm # jsons)
   \<and> (ExecuteCode M Execute c md args = Inr out
      \<longrightarrow> (\<exists>jm jsons. M (MetadataMessage (md\<lparr>udf_interface_version := 1\<rparr>)) = Inr jm
             \<and> map (\<lambda>a. M (if tags a = [] then ValueMessage (data a) else ArgumentMessage a)) args
                 = map Inr jsons
             \<and> ExecuteCode_keys Execute c (jm # jsons) = Inr out))"
proof (intro conjI impI)
  show "ExecuteCode M Execute c (md\<lparr>udf_interface_version := v\<rparr>) args
          = ExecuteCode M Execute c md args"
    by (simp add: ExecuteCode_def)
next
  assume a: "M (MetadataMessage (md\<lparr>udf_interface_version := 1\<rparr>)) = Inr jm
        \<and> map (\<lambda>a. M (if tags a = [] then ValueMessage (data a) else ArgumentMessage a)) args
            = map Inr jsons"
  then have "serialize_arguments M args [jm] = Inr ([jm] @ jsons)"
    by (simp add: serialize_arguments_ok)
  with a show "ExecuteCode M Execute c md args = ExecuteCode_keys Execute c (jm # jsons)"
    by (simp add: ExecuteCode_def kUdfInterfaceVersion_def)
  show "ir_input (BuildInvocationRequest c (jm # jsons)) = jm # jsons"
    by (simp add: BuildInvocationRequest_def)
next
  assume r: "ExecuteCode M Execute c md args = Inr out"
  then obtain jm where jm: "M (MetadataMessage (md\<lparr>udf_interface_version := 1\<rparr>)) = Inr jm"
    by (cases "M (MetadataMessage (md\<lparr>udf_interface_version := 1\<rparr>))")
       (simp_all add: ExecuteCode_def kUdfInterfaceVersion_def)
  with r obtain xs where xs: "serialize_arguments M args [jm] = Inr xs"
    and k: "ExecuteCode_keys Execute c xs = Inr out"
    by (cases "serialize_arguments M args [jm]")
       (simp_all add: ExecuteCode_def kUdfInterfaceVersion_def)
  from serialize_arguments_Inr [OF xs] obtain jsons where "xs = [jm] @ jsons"
    and "map (\<lambda>a. M (if tags a = [] then ValueMessage (data a) else ArgumentMessage a)) args
                 = map Inr jsons" by blast
  with jm k show "\<exists>jm jsons. M (MetadataMessage (md\<lparr>udf_interface_version := 1\<rparr>)) = Inr jm
             \<and> map (\<lambda>a. M (if tags a = [] then ValueMessage (data a) else ArgumentMessage a)) args
                 = map Inr jsons
             \<and> ExecuteCode_keys Execute c (jm # jsons) = Inr out" by auto
qed

text \<open>
  An argument without tags and one with two tags, on metadata that arrives with
  version 0: the engine receives the metadata with version 1, then the data of the
  first argument and the whole second argument.
\<close>

theorem ExecuteCode_serialization_witness:
  "ExecuteCode example_to_json example_execute UdfClientImpl_new
     \<lparr>request_metadata = [], udf_interface_version = 0\<rparr>
     [\<lparr>tags = [], data = StringValue ''ECHO''\<rparr>,
      \<lparr>tags = [StringValue ''custom'', StringValue ''keys''],
       data = ListValue [StringValue ''key1'']\<rparr>]
   = Inr ''metadata:1,data,argument''"
  using ExecuteCode_serialization [where M = example_to_json and Execute = example_execute
     and c = UdfClientImpl_new
     and md = "\<lparr>request_metadata = [], udf_interface_version = 0\<rparr>" and v = 0
     and args = "[\<lparr>tags = [], data = StringValue ''ECHO''\<rparr>,
      \<lparr>tags = [StringValue ''custom'', StringValue ''keys''],
       data = ListValue [StringValue ''key1'']\<rparr>]"
     and jm = "''metadata:1''" and jsons = "[''data'', ''argument'']"
     and out = "''metadata:1,data,argument''"]
  by (simp add: example_to_json_def StrFormat_d_def nat_digits.simps ExecuteCode_keys_def
        example_execute_def BuildInvocationRequest_def ok_def OkStatus_def)


section \<open>Properties of the getValues hook\<close>

text \<open>
  Claim C7, as amended. When the hook has its lookup and the input is not a list of
  strings, the call returns without an exception; the output is the status with code 3
  (InvalidArgument) and message \<^verbatim>\<open>getValues input must be list of strings\<close>, as the
  dumped JSON object in the string encoding and as the serialized binary response
  otherwise, and no lookup is made.
\<close>

theorem hook_rejects_other_inputs:
  "m_lookup h \<noteq> None \<and> \<not> has_input_list_of_string io \<longrightarrow>
     hook_call libs h io =
       Inr (io\<lparr>io_output :=
               (if m_output_type h = kString then
                  OutputString (json_dump libs
                    (JObject [(''code'', JNumber 3),
                              (''message'', JString ''getValues input must be list of strings'')]))
                else
                  OutputBytes (SerializeToArray libs
                    \<lparr>binary_kv_pairs = [],
                     binary_status =
                       Some \<lparr>status_code = 3,
                             status_message = ''getValues input must be list of strings''\<rparr>\<rparr>))\<rparr>,
            [])"
  by (cases "io_input io")
     (auto simp add: hook_call_def SetStatus_def SetStatusAsString_def SetStatusAsBytes_def
        SetBinaryGetValuesAsBytes_def status_json_def GetStatus_def)

text \<open>
  A hook with a lookup, given a single string in the string encoding and no input at all
  in the binary encoding.
\<close>

theorem hook_rejects_other_inputs_witness:
  "hook_call example_libs (FinishInit (Some example_lookup) (GetValuesHook_Create kString))
     \<lparr>io_input = InputString ''key1'', io_output = OutputNotSet\<rparr>
   = Inr (\<lparr>io_input = InputString ''key1'',
           io_output = OutputString ''{code:3;message:getValues input must be list of strings;}''\<rparr>,
          [])
   \<and> hook_call example_libs (FinishInit (Some example_lookup) (GetValuesHook_Create kBinary))
     \<lparr>io_input = InputNotSet, io_output = OutputNotSet\<rparr>
   = Inr (\<lparr>io_input = InputNotSet,
           io_output = OutputBytes ''3:getValues input must be list of strings''\<rparr>,
          [])"
  using hook_rejects_other_inputs [where libs = example_libs
      and h = "FinishInit (Some example_lookup) (GetValuesHook_Create kString)"
      and io = "\<lparr>io_input = InputString ''key1'', io_output = OutputNotSet\<rparr>"]
    hook_rejects_other_inputs [where libs = example_libs
      and h = "FinishInit (Some example_lookup) (GetValuesHook_Create kBinary)"
      and io = "\<lparr>io_input = InputNotSet, io_output = OutputNotSet\<rparr>"]
  by (simp add: FinishInit_def GetValuesHook_Create_def example_libs_def StrFormat_d_def
        nat_digits.simps)

text \<open>
  Claim C7 as stated fails for a hook that has no lookup yet: the missing lookup is
  checked before the input, so an input that is not a list of strings is answered with
  code 13 (Internal), not with code 3.
\<close>

theorem hook_without_lookup_counterexample:
  "\<not> has_input_list_of_string \<lparr>io_input = InputString ''key1'', io_output = OutputNotSet\<rparr>
   \<and> hook_call example_libs (GetValuesHook_Create kString)
       \<lparr>io_input = InputString ''key1'', io_output = OutputNotSet\<rparr>
     = Inr (\<lparr>io_input = InputString ''key1'',
             io_output = OutputString ''{code:13;message:getValues has not been initialized yet;}''\<rparr>,
            [])
   \<and> hook_call example_libs (GetValuesHook_Create kString)
       \<lparr>io_input = InputString ''key1'', io_output = OutputNotSet\<rparr>
     \<noteq> Inr (\<lparr>io_input = InputString ''key1'',
             io_output = OutputString ''{code:3;message:getValues input must be list of strings;}''\<rparr>,
            [])"
  by (simp add: hook_call_def GetValuesHook_Create_def SetStatus_def SetStatusAsString_def
        status_json_def example_libs_def StrFormat_d_def nat_digits.simps)

text \<open>
  Claim C9. A hook is created without a lookup. Called while it has none, it returns
  without an exception, with the status of code 13 (Internal) and message
  \<^verbatim>\<open>getValues has not been initialized yet\<close> in its encoding, and makes no lookup,
  whatever the input. \<^verbatim>\<open>FinishInit\<close> stores the lookup only when none is stored, so
  after two calls that each supply a lookup the first one is in place.
\<close>

theorem hook_uninitialized:
  "m_lookup (GetValuesHook_Create t) = None
   \<and> (m_lookup h = None \<longrightarrow>
        hook_call libs h io =
          Inr (io\<lparr>io_output :=
               (if m_output_type h = kString then
                  OutputString (json_dump libs
                    (JObject [(''code'', JNumber 13),
                              (''message'', JString ''getValues has not been initialized yet'')]))
                else
                  OutputBytes (SerializeToArray libs
                    \<lparr>binary_kv_pairs = [],
                     binary_status =
                       Some \<lparr>status_code = 13,
                             status_message = ''getValues has not been initialized yet''\<rparr>\<rparr>))\<rparr>,
            []))
   \<and> (m_lookup h = None \<longrightarrow> m_lookup (FinishInit l h) = l)
   \<and> (m_lookup h \<noteq> None \<longrightarrow> FinishInit l h = h)
   \<and> m_lookup (FinishInit (Some l2) (FinishInit (Some l1) (GetValuesHook_Create t))) = Some l1"
  by (auto simp add: hook_call_def SetStatus_def SetStatusAsString_def SetStatusAsBytes_def
        SetBinaryGetValuesAsBytes_def status_json_def GetStatus_def FinishInit_def
        GetValuesHook_Create_def)

text \<open>
  A fresh hook with the binary encoding, called with a list of strings; and a second
  \<^verbatim>\<open>FinishInit\<close> that changes nothing.
\<close>

theorem hook_uninitialized_witness:
  "hook_call example_libs (GetValuesHook_Create kBinary)
     \<lparr>io_input = InputListOfString [''key1''], io_output = OutputNotSet\<rparr>
   = Inr (\<lparr>io_input = InputListOfString [''key1''],
           io_output = OutputBytes ''13:getValues has not been initialized yet''\<rparr>,
          [])
   \<and> FinishInit (Some other_lookup) (FinishInit (Some example_lookup) (GetValuesHook_Create kBinary))
     = FinishInit (Some example_lookup) (GetValuesHook_Create kBinary)"
  using hook_uninitialized [where libs = example_libs and t = kBinary
      and h = "GetValuesHook_Create kBinary"
      and io = "\<lparr>io_input = InputListOfString [''key1''], io_output = OutputNotSet\<rparr>"]
    hook_uninitialized [where h = "FinishInit (Some example_lookup) (GetValuesHook_Create kBinary)"
      and l = "Some other_lookup"]
  by (simp add: FinishInit_def GetValuesHook_Create_def example_libs_def StrFormat_d_def
        nat_digits.simps)


section \<open>Properties of the V1 adapter and of the V2 request handler\<close>

lemma ProcessKeyValues_override:
  "ProcessKeyValues J kvs rs = rs ++ map_of (rev (map (\<lambda>kv. (fst kv, vo_value (snd kv))) kvs))"
proof (induction kvs arbitrary: rs)
  case Nil
  show ?case by simp
next
  case (Cons kv kvs)
  obtain k v where kv: "kv = (k, v)" by (cases kv)
  have w: "(case vo_value v of
               StringValue s \<Rightarrow>
                 (case J s of
                    Inr value_proto \<Rightarrow> rs(k \<mapsto> value_proto)
                  | Inl st \<Rightarrow> rs)
             | _ \<Rightarrow> rs)(k \<mapsto> vo_value v) = rs(k \<mapsto> vo_value v)"
    by (simp split: PValue.split sum.split)
  have "ProcessKeyValues J (kv # kvs) rs = ProcessKeyValues J kvs (rs(k \<mapsto> vo_value v))"
    by (simp add: kv Let_def w)
  also have "\<dots> = rs(k \<mapsto> vo_value v)
      ++ map_of (rev (map (\<lambda>kv. (fst kv, vo_value (snd kv))) kvs))"
    by (rule Cons.IH)
  also have "\<dots> = rs ++ map_of (rev (map (\<lambda>kv. (fst kv, vo_value (snd kv))) (kv # kvs)))"
    by (rule ext) (simp add: kv map_add_def split: option.split)
  finally show ?case .
qed

text \<open>
  Claim C8. The result of \<^verbatim>\<open>ProcessKeyValues\<close> does not depend on the JSON parser:
  whatever the parse of a string value stores is overwritten by the raw value. For the
  entries of a map (distinct keys) every key ends up with the raw value of its entry, a
  string value with that string, and the keys that are not in the map keep what the
  result struct had.
\<close>

theorem ProcessKeyValues_raw_value:
  "ProcessKeyValues J kvs rs = ProcessKeyValues J' kvs rs
   \<and> (distinct (map fst kvs) \<and> (k, v) \<in> set kvs \<longrightarrow>
        ProcessKeyValues J kvs rs k = Some (vo_value v))
   \<and> (distinct (map fst kvs) \<and> (k, v) \<in> set kvs \<and> vo_value v = StringValue s \<longrightarrow>
        ProcessKeyValues J kvs rs k = Some (StringValue s))
   \<and> (k \<notin> fst ` set kvs \<longrightarrow> ProcessKeyValues J kvs rs k = rs k)"
proof -
  let ?f = "\<lambda>kv. (fst kv, vo_value (snd kv))"
  have same: "ProcessKeyValues J kvs rs = ProcessKeyValues J' kvs rs"
    by (simp add: ProcessKeyValues_override)
  have found: "distinct (map fst kvs) \<and> (k, v) \<in> set kvs \<longrightarrow>
        ProcessKeyValues J kvs rs k = Some (vo_value v)"
  proof
    assume a: "distinct (map fst kvs) \<and> (k, v) \<in> set kvs"
    then have d: "distinct (map fst (rev (map ?f kvs)))"
      by (simp add: rev_map [symmetric] comp_def)
    from a have "(k, vo_value v) \<in> set (rev (map ?f kvs))" by force
    with d have "map_of (rev (map ?f kvs)) k = Some (vo_value v)" by (rule map_of_is_SomeI)
    then show "ProcessKeyValues J kvs rs k = Some (vo_value v)"
      by (simp add: ProcessKeyValues_override map_add_def)
  qed
  have absent: "k \<notin> fst ` set kvs \<longrightarrow> ProcessKeyValues J kvs rs k = rs k"
  proof
    assume "k \<notin> fst ` set kvs"
    then have "k \<notin> fst ` set (rev (map ?f kvs))" by force
    then have "map_of (rev (map ?f kvs)) k = None" by (simp add: map_of_eq_None_iff)
    then show "ProcessKeyValues J kvs rs k = rs k"
      by (simp add: ProcessKeyValues_override map_add_def)
  qed
  from same found absent show ?thesis by auto
qed

text \<open>
  The string \<^verbatim>\<open>42\<close> parses as a number, and the result still holds the string.
\<close>

theorem ProcessKeyValues_raw_value_witness:
  "ProcessKeyValues example_parse
     [(''price'', \<lparr>vo_value = StringValue ''42''\<rparr>), (''name'', \<lparr>vo_value = StringValue ''shoe''\<rparr>)]
     Map.empty ''price''
   = Some (StringValue ''42'')
   \<and> example_parse ''42'' = Inr (NumberValue 42)"
  using ProcessKeyValues_raw_value [where J = example_parse
      and kvs = "[(''price'', \<lparr>vo_value = StringValue ''42''\<rparr>),
                  (''name'', \<lparr>vo_value = StringValue ''shoe''\<rparr>)]"
      and rs = Map.empty and k = "''price''" and v = "\<lparr>vo_value = StringValue ''42''\<rparr>"
      and s = "''42''"]
  by (simp add: example_parse_def)

text \<open>
  Claim C5, on the handler as modelled from the specification. For a parsed request
  with at least one partition the gRPC status is OK and the Binary HTTP response code is
  200, whatever the UDF answers; the response has one entry for each partition, with the
  partition's id, carrying the status with the code and the message of the UDF's error
  when the UDF fails for that partition and the string output when it succeeds.
\<close>

theorem udf_failure_in_partition:
  "partitions request \<noteq> [] \<longrightarrow>
     fst (GetValues udf request) = kOk
     \<and> BinaryHttpGetValues udf request = (kOk, 200, snd (GetValues udf request))
     \<and> length (snd (GetValues udf request)) = length (partitions request)
     \<and> (\<forall>i<length (partitions request).
           rp_id (snd (GetValues udf request) ! i) = partition_id (partitions request ! i)
           \<and> (\<forall>st. udf \<lparr>request_metadata = metadata request, udf_interface_version = 0\<rparr>
                      (arguments (partitions request ! i)) = Inl st
                 \<longrightarrow> rp_output (snd (GetValues udf request) ! i)
                       = StatusOutput \<lparr>status_code = code_number (code st),
                                       status_message = message st\<rparr>)
           \<and> (\<forall>output. udf \<lparr>request_metadata = metadata request, udf_interface_version = 0\<rparr>
                      (arguments (partitions request ! i)) = Inr output
                 \<longrightarrow> rp_output (snd (GetValues udf request) ! i) = StringOutput output))"
  by (simp add: GetValues_def BinaryHttpGetValues_def ProcessOnePartition_def GetStatus_def
        split: sum.split)

text \<open>
  Scenario S4 of the specification: the UDF fails with the internal error
  \<^verbatim>\<open>UDF execution error\<close> for partition 0 and succeeds for partition 1.
\<close>

theorem udf_failure_in_partition_witness:
  "BinaryHttpGetValues example_udf
     \<lparr>metadata = [],
      partitions = [\<lparr>partition_id = 0, compression_group_id = 0, arguments = []\<rparr>,
                    \<lparr>partition_id = 1, compression_group_id = 0,
                     arguments = [\<lparr>tags = [], data = StringValue ''ECHO''\<rparr>]\<rparr>]\<rparr>
   = (kOk, 200,
      [\<lparr>rp_id = 0,
        rp_output = StatusOutput \<lparr>status_code = 13, status_message = ''UDF execution error''\<rparr>\<rparr>,
       \<lparr>rp_id = 1, rp_output = StringOutput ''ECHO''\<rparr>])"
  using udf_failure_in_partition [where udf = example_udf and request =
     "\<lparr>metadata = [],
      partitions = [\<lparr>partition_id = 0, compression_group_id = 0, arguments = []\<rparr>,
                    \<lparr>partition_id = 1, compression_group_id = 0,
                     arguments = [\<lparr>tags = [], data = StringValue ''ECHO''\<rparr>]\<rparr>]\<rparr>"]
  by (simp add: GetValues_def BinaryHttpGetValues_def ProcessOnePartition_def GetStatus_def
        example_udf_def InternalError_def)

end
